theory Spec2Isabelle
  imports Main "HOL-Library.Multiset" "HOL-Library.Sublist" "HOL-Library.List_Lexorder"
begin

section \<open>JavaScript strings\<close>

text \<open>
  A JavaScript string is a sequence of UTF-16 code units. The archivers only ever inspect
  single code units (regular expressions without the \<open>u\<close> flag, \<open>split\<close>, \<open>trim\<close>), so a
  string is modelled as the list of its code units, each a natural number below 65536.
  \<open>js\<close> turns an ASCII literal of the theory into such a string.
\<close>

type_synonym jsstring = "nat list"

definition js :: "string \<Rightarrow> jsstring" where
  "js s = map of_char s"

text \<open>\<open>\s\<close> of a regular expression and the characters \<open>String.prototype.trim\<close> strips:
  WhiteSpace and LineTerminator of ECMAScript.\<close>

definition is_space :: "nat \<Rightarrow> bool" where
  "is_space x \<longleftrightarrow>
     x = 9 \<or> x = 10 \<or> x = 11 \<or> x = 12 \<or> x = 13 \<or> x = 32 \<or> x = 160 \<or> x = 5760 \<or>
     (8192 \<le> x \<and> x \<le> 8202) \<or> x = 8232 \<or> x = 8233 \<or> x = 8239 \<or> x = 8287 \<or>
     x = 12288 \<or> x = 65279"

definition is_line_terminator :: "nat \<Rightarrow> bool" where
  "is_line_terminator x \<longleftrightarrow> x = 10 \<or> x = 13 \<or> x = 8232 \<or> x = 8233"

definition is_digit :: "nat \<Rightarrow> bool" where
  "is_digit x \<longleftrightarrow> 48 \<le> x \<and> x \<le> 57"

text \<open>\<open>\w\<close>: \<open>[A-Za-z0-9_]\<close>.\<close>

definition is_word_char :: "nat \<Rightarrow> bool" where
  "is_word_char x \<longleftrightarrow> (65 \<le> x \<and> x \<le> 90) \<or> (97 \<le> x \<and> x \<le> 122) \<or> is_digit x \<or> x = 95"

text \<open>The other case of an ASCII letter. With the \<open>i\<close> flag and no \<open>u\<close> flag a pattern
  character that is ASCII matches exactly itself and its other ASCII case: Canonicalize
  never maps a code unit of 128 or more to one below 128.\<close>

definition swapcase :: "nat \<Rightarrow> nat" where
  "swapcase x = (if 65 \<le> x \<and> x \<le> 90 then x + 32 else if 97 \<le> x \<and> x \<le> 122 then x - 32 else x)"

definition trim :: "jsstring \<Rightarrow> jsstring" where
  "trim s = rev (dropWhile is_space (rev (dropWhile is_space s)))"

text \<open>\<open>s.split('\n')\<close>: always at least one piece.\<close>

fun split_on :: "nat \<Rightarrow> jsstring \<Rightarrow> jsstring list" where
  "split_on d [] = [[]]"
| "split_on d (c # cs) =
     (if c = d then [] # split_on d cs
      else (case split_on d cs of l # ls \<Rightarrow> (c # l) # ls | [] \<Rightarrow> [[c]]))"

text \<open>\<open>lines.join('\n')\<close>.\<close>

fun join_with :: "nat \<Rightarrow> jsstring list \<Rightarrow> jsstring" where
  "join_with d [] = []"
| "join_with d [l] = l"
| "join_with d (l # ls) = l @ d # join_with d ls"

section \<open>Regular expressions\<close>

text \<open>
  The regular expressions of \<open>cleanText\<close> are sequences of: literal text, a character class
  under a quantifier (greedy or lazy), an alternation of literals, the assertions \<open>^\<close>, \<open>$\<close>
  and \<open>\b\<close>. The matcher below is the backtracking matcher of ECMAScript restricted to
  these forms: it returns the number of code units consumed by the first match in
  priority order at the current position.
\<close>

datatype citem = Ch char | Range char char | WS | NWS | Dig

datatype cclass = In "citem list" | NotIn "citem list"

datatype node =
    Lit string
  | Rep cclass nat "nat option" bool
  | Alt "string list"
  | Bol
  | Eol
  | WordB

abbreviation One :: "cclass \<Rightarrow> node" where "One c \<equiv> Rep c 1 (Some 1) True"
abbreviation Opt :: "cclass \<Rightarrow> node" where "Opt c \<equiv> Rep c 0 (Some 1) True"
abbreviation Star :: "cclass \<Rightarrow> node" where "Star c \<equiv> Rep c 0 None True"
abbreviation Plus :: "cclass \<Rightarrow> node" where "Plus c \<equiv> Rep c 1 None True"
abbreviation LazyStar :: "cclass \<Rightarrow> node" where "LazyStar c \<equiv> Rep c 0 None False"
abbreviation AtLeast :: "nat \<Rightarrow> cclass \<Rightarrow> node" where "AtLeast n c \<equiv> Rep c n None True"
abbreviation Between :: "nat \<Rightarrow> nat \<Rightarrow> cclass \<Rightarrow> node" where
  "Between lo hi c \<equiv> Rep c lo (Some hi) True"

record regex =
  nodes :: "node list"
  ignoreCase :: bool
  multiline :: bool

fun char_match :: "bool \<Rightarrow> char \<Rightarrow> nat \<Rightarrow> bool" where
  "char_match i c x = (x = of_char c \<or> (i \<and> swapcase x = of_char c))"

fun citem_match :: "bool \<Rightarrow> citem \<Rightarrow> nat \<Rightarrow> bool" where
  "citem_match i (Ch c) x = char_match i c x"
| "citem_match i (Range a b) x =
     ((of_char a \<le> x \<and> x \<le> of_char b) \<or>
      (i \<and> of_char a \<le> swapcase x \<and> swapcase x \<le> of_char b))"
| "citem_match i WS x = is_space x"
| "citem_match i NWS x = (\<not> is_space x)"
| "citem_match i Dig x = is_digit x"

fun cclass_match :: "bool \<Rightarrow> cclass \<Rightarrow> nat \<Rightarrow> bool" where
  "cclass_match i (In its) x = list_ex (\<lambda>it. citem_match i it x) its"
| "cclass_match i (NotIn its) x = (\<not> list_ex (\<lambda>it. citem_match i it x) its)"

text \<open>Does the literal \<open>l\<close> match at the start of \<open>s\<close>?\<close>

fun lit_match :: "bool \<Rightarrow> string \<Rightarrow> jsstring \<Rightarrow> bool" where
  "lit_match i [] s = True"
| "lit_match i (c # cs) [] = False"
| "lit_match i (c # cs) (x # xs) = (char_match i c x \<and> lit_match i cs xs)"

text \<open>How many code units at the start of \<open>s\<close> a quantified class can take at most.\<close>

definition avail :: "bool \<Rightarrow> cclass \<Rightarrow> nat option \<Rightarrow> jsstring \<Rightarrow> nat" where
  "avail i c hi s =
     (let n = length (takeWhile (cclass_match i c) s)
      in case hi of None \<Rightarrow> n | Some h \<Rightarrow> min h n)"

text \<open>The first alternative, in order, that leads to a match.\<close>

fun first_some :: "('a \<Rightarrow> 'b option) \<Rightarrow> 'a list \<Rightarrow> 'b option" where
  "first_some f [] = None"
| "first_some f (x # xs) = (case f x of Some r \<Rightarrow> Some r | None \<Rightarrow> first_some f xs)"

text \<open>The code unit before the position reached after \<open>k\<close> more code units of \<open>s\<close>
  (\<open>None\<close> at the start of the input).\<close>

definition prev_after :: "nat option \<Rightarrow> jsstring \<Rightarrow> nat \<Rightarrow> nat option" where
  "prev_after p s k = (if k = 0 then p else Some (s ! (k - 1)))"

definition at_bol :: "bool \<Rightarrow> nat option \<Rightarrow> bool" where
  "at_bol m p = (case p of None \<Rightarrow> True | Some x \<Rightarrow> m \<and> is_line_terminator x)"

definition at_eol :: "bool \<Rightarrow> jsstring \<Rightarrow> bool" where
  "at_eol m s = (case s of [] \<Rightarrow> True | x # _ \<Rightarrow> m \<and> is_line_terminator x)"

definition at_word_boundary :: "nat option \<Rightarrow> jsstring \<Rightarrow> bool" where
  "at_word_boundary p s =
     ((case p of None \<Rightarrow> False | Some x \<Rightarrow> is_word_char x) \<noteq>
      (case s of [] \<Rightarrow> False | x # _ \<Rightarrow> is_word_char x))"

text \<open>\<open>mt i m ns p s\<close>: match the nodes \<open>ns\<close> at the start of \<open>s\<close>, where \<open>p\<close> is the code
  unit before \<open>s\<close> in the input; the result is the length of the match.\<close>

fun mt :: "bool \<Rightarrow> bool \<Rightarrow> node list \<Rightarrow> nat option \<Rightarrow> jsstring \<Rightarrow> nat option" where
  "mt i m [] p s = Some 0"
| "mt i m (Lit l # ns) p s =
     (if lit_match i l s
      then map_option (\<lambda>k. length l + k)
             (mt i m ns (prev_after p s (length l)) (drop (length l) s))
      else None)"
| "mt i m (Rep c lo hi g # ns) p s =
     (let n = avail i c hi s
      in if n < lo then None
         else first_some
                (\<lambda>k. map_option (\<lambda>r. k + r) (mt i m ns (prev_after p s k) (drop k s)))
                (if g then rev [lo ..< Suc n] else [lo ..< Suc n]))"
| "mt i m (Alt ls # ns) p s =
     first_some
       (\<lambda>l. if lit_match i l s
            then map_option (\<lambda>k. length l + k)
                   (mt i m ns (prev_after p s (length l)) (drop (length l) s))
            else None)
       ls"
| "mt i m (Bol # ns) p s = (if at_bol m p then mt i m ns p s else None)"
| "mt i m (Eol # ns) p s = (if at_eol m s then mt i m ns p s else None)"
| "mt i m (WordB # ns) p s = (if at_word_boundary p s then mt i m ns p s else None)"

definition match_at :: "regex \<Rightarrow> nat option \<Rightarrow> jsstring \<Rightarrow> nat option" where
  "match_at re p s = mt (ignoreCase re) (multiline re) (nodes re) p s"

text \<open>\<open>s.replace(re, rep)\<close> for a regular expression with the \<open>g\<close> flag: the matches are
  found from left to right, none overlapping the one before; after an empty match the
  search moves on by one code unit. None of the replacement texts used here contains
  \<open>$\<close>, so each is inserted as it is.\<close>

fun replace_go :: "regex \<Rightarrow> jsstring \<Rightarrow> nat option \<Rightarrow> jsstring \<Rightarrow> jsstring" where
  "replace_go re rep p [] = (case match_at re p [] of Some _ \<Rightarrow> rep | None \<Rightarrow> [])"
| "replace_go re rep p (c # cs) =
     (case match_at re p (c # cs) of
        None \<Rightarrow> c # replace_go re rep (Some c) cs
      | Some 0 \<Rightarrow> rep @ c # replace_go re rep (Some c) cs
      | Some (Suc k) \<Rightarrow> rep @ replace_go re rep (Some ((c # cs) ! k)) (drop k cs))"

definition replaceAll :: "regex \<Rightarrow> jsstring \<Rightarrow> jsstring \<Rightarrow> jsstring" where
  "replaceAll re rep s = replace_go re rep None s"

text \<open>\<open>s.match(re)\<close> as a truth value, for a regular expression without the \<open>g\<close> flag: is
  there a match at some position?\<close>

fun test_go :: "regex \<Rightarrow> nat option \<Rightarrow> jsstring \<Rightarrow> bool" where
  "test_go re p [] = (match_at re p [] \<noteq> None)"
| "test_go re p (c # cs) = (match_at re p (c # cs) \<noteq> None \<or> test_go re (Some c) cs)"

definition matches :: "regex \<Rightarrow> jsstring \<Rightarrow> bool" where
  "matches re s = test_go re None s"

section \<open>The text normalizer: \<open>GmailArchiver.cleanText\<close>\<close>

abbreviation RE_g :: "node list \<Rightarrow> regex" where
  "RE_g ns \<equiv> \<lparr>nodes = ns, ignoreCase = False, multiline = False\<rparr>"
abbreviation RE_gi :: "node list \<Rightarrow> regex" where
  "RE_gi ns \<equiv> \<lparr>nodes = ns, ignoreCase = True, multiline = False\<rparr>"
abbreviation RE_gm :: "node list \<Rightarrow> regex" where
  "RE_gm ns \<equiv> \<lparr>nodes = ns, ignoreCase = False, multiline = True\<rparr>"
abbreviation RE_i :: "node list \<Rightarrow> regex" where
  "RE_i ns \<equiv> \<lparr>nodes = ns, ignoreCase = True, multiline = False\<rparr>"
abbreviation RE_plain :: "node list \<Rightarrow> regex" where
  "RE_plain ns \<equiv> \<lparr>nodes = ns, ignoreCase = False, multiline = False\<rparr>"

abbreviation dquote :: char where "dquote \<equiv> CHR 0x22"
abbreviation squote :: char where "squote \<equiv> CHR 0x27"
abbreviation LF :: char where "LF \<equiv> CHR 0x0A"
abbreviation CR :: char where "CR \<equiv> CHR 0x0D"
abbreviation TAB :: char where "TAB \<equiv> CHR 0x09"

text \<open>The tail shared by the CSS property patterns: \<open>:\s*[^;]+;?\<close>.\<close>

definition css_value :: "node list" where
  "css_value = [Lit '':'', Star (In [WS]), Plus (NotIn [Ch CHR '';'']), Opt (In [Ch CHR '';''])]"

text \<open>Lines 137 to 167 of the source, in order: each pattern with its replacement.\<close>

definition markup_steps :: "(regex \<times> jsstring) list" where
  \<open>markup_steps =
   [ \<comment> \<open>\<open>/<style[^>]*>[\s\S]*?<\/style>/gi\<close>\<close>
     (RE_gi [Lit ''<style'', Star (NotIn [Ch CHR ''>'']), Lit ''>'', LazyStar (In [WS, NWS]),
             Lit ''</style>''], []),
     \<comment> \<open>\<open>/style\s*=\s*"[^"]*"/gi\<close>\<close>
     (RE_gi [Lit ''style'', Star (In [WS]), Lit ''='', Star (In [WS]), Lit [dquote],
             Star (NotIn [Ch dquote]), Lit [dquote]], []),
     \<comment> \<open>\<open>/style\s*=\s*'[^']*'/gi\<close>\<close>
     (RE_gi [Lit ''style'', Star (In [WS]), Lit ''='', Star (In [WS]), Lit [squote],
             Star (NotIn [Ch squote]), Lit [squote]], []),
     \<comment> \<open>\<open>/<script[^>]*>[\s\S]*?<\/script>/gi\<close>\<close>
     (RE_gi [Lit ''<script'', Star (NotIn [Ch CHR ''>'']), Lit ''>'', LazyStar (In [WS, NWS]),
             Lit ''</script>''], []),
     \<comment> \<open>\<open>/<!--[\s\S]*?-->/g\<close>\<close>
     (RE_g [Lit ''<!--'', LazyStar (In [WS, NWS]), Lit ''-->''], []),
     \<comment> \<open>\<open>/<\/?[^>]+>/g\<close>\<close>
     (RE_g [Lit ''<'', Opt (In [Ch CHR ''/'']), Plus (NotIn [Ch CHR ''>'']), Lit ''>''], []),
     \<comment> \<open>\<open>/\{[^}]*\}/g\<close>\<close>
     (RE_g [Lit ''{'', Star (NotIn [Ch CHR ''}'']), Lit ''}''], []),
     \<comment> \<open>\<open>/font-[a-z-]+:\s*[^;]+;?/gi\<close>\<close>
     (RE_gi (Lit ''font-'' # Plus (In [Range CHR ''a'' CHR ''z'', Ch CHR ''-'']) # css_value), []),
     \<comment> \<open>\<open>/color:\s*[^;]+;?/gi\<close>\<close>
     (RE_gi (Lit ''color'' # css_value), []),
     \<comment> \<open>\<open>/background[a-z-]*:\s*[^;]+;?/gi\<close>\<close>
     (RE_gi (Lit ''background'' # Star (In [Range CHR ''a'' CHR ''z'', Ch CHR ''-'']) # css_value), []),
     \<comment> \<open>\<open>/margin[a-z-]*:\s*[^;]+;?/gi\<close>\<close>
     (RE_gi (Lit ''margin'' # Star (In [Range CHR ''a'' CHR ''z'', Ch CHR ''-'']) # css_value), []),
     \<comment> \<open>\<open>/padding[a-z-]*:\s*[^;]+;?/gi\<close>\<close>
     (RE_gi (Lit ''padding'' # Star (In [Range CHR ''a'' CHR ''z'', Ch CHR ''-'']) # css_value), []),
     \<comment> \<open>\<open>/border[a-z-]*:\s*[^;]+;?/gi\<close>\<close>
     (RE_gi (Lit ''border'' # Star (In [Range CHR ''a'' CHR ''z'', Ch CHR ''-'']) # css_value), []),
     \<comment> \<open>\<open>/width:\s*[^;]+;?/gi\<close>\<close>
     (RE_gi (Lit ''width'' # css_value), []),
     \<comment> \<open>\<open>/height:\s*[^;]+;?/gi\<close>\<close>
     (RE_gi (Lit ''height'' # css_value), []),
     \<comment> \<open>\<open>/display:\s*[^;]+;?/gi\<close>\<close>
     (RE_gi (Lit ''display'' # css_value), []),
     \<comment> \<open>\<open>/position:\s*[^;]+;?/gi\<close>\<close>
     (RE_gi (Lit ''position'' # css_value), []),
     \<comment> \<open>\<open>/text-[a-z-]+:\s*[^;]+;?/gi\<close>\<close>
     (RE_gi (Lit ''text-'' # Plus (In [Range CHR ''a'' CHR ''z'', Ch CHR ''-'']) # css_value), []),
     \<comment> \<open>\<open>/=3D/g\<close>, \<open>/=20/g\<close>, \<open>/=\r?\n/g\<close>\<close>
     (RE_g [Lit ''=3D''], js ''=''),
     (RE_g [Lit ''=20''], js '' ''),
     (RE_g [Lit ''='', Opt (In [Ch CR]), Lit [LF]], []) ]\<close>

text \<open>The entity table, in the order of the object literal (\<open>Object.entries\<close> keeps
  insertion order). The last six replacements are the code units of the en dash, em dash,
  ellipsis, copyright, registered and trade mark signs.\<close>

definition entities :: "(string \<times> jsstring) list" where
  "entities =
   [ (''&nbsp;'', js '' ''),
     (''&lt;'', js ''<''),
     (''&gt;'', js ''>''),
     (''&amp;'', js ''&''),
     (''&quot;'', js [dquote]),
     (''&#39;'', js [squote]),
     (''&apos;'', js [squote]),
     (''&ldquo;'', js [dquote]),
     (''&rdquo;'', js [dquote]),
     (''&lsquo;'', js [squote]),
     (''&rsquo;'', js [squote]),
     (''&ndash;'', [8211]),
     (''&mdash;'', [8212]),
     (''&hellip;'', [8230]),
     (''&copy;'', [169]),
     (''&reg;'', [174]),
     (''&trade;'', [8482]) ]"

text \<open>\<open>new RegExp(entity, 'g')\<close>: no entity name contains a character that is special in a
  pattern, so the pattern is the literal text.\<close>

definition entity_steps :: "(regex \<times> jsstring) list" where
  "entity_steps = map (\<lambda>(entity, replacement). (RE_g [Lit entity], replacement)) entities"

text \<open>Lines 195 to 207 of the source.\<close>

definition tail_steps :: "(regex \<times> jsstring) list" where
  \<open>tail_steps =
   [ \<comment> \<open>\<open>/&#\d+;/g\<close>\<close>
     (RE_g [Lit ''&#'', Plus (In [Dig]), Lit '';''], []),
     \<comment> \<open>\<open>/&#x[0-9a-f]+;/gi\<close>\<close>
     (RE_gi [Lit ''&#x'', Plus (In [Range CHR ''0'' CHR ''9'', Range CHR ''a'' CHR ''f'']), Lit '';''], []),
     \<comment> \<open>\<open>/https?:\/\/[^\s]*\.(css|js|gif|png|jpg|jpeg)\b[^\s]*/gi\<close>\<close>
     (RE_gi [Lit ''http'', Opt (In [Ch CHR ''s'']), Lit ''://'', Star (NotIn [WS]), Lit ''.'',
             Alt [''css'', ''js'', ''gif'', ''png'', ''jpg'', ''jpeg''], WordB, Star (NotIn [WS])],
      js ''[removed styling/tracking URL]''),
     \<comment> \<open>\<open>/\r\n/g\<close>, \<open>/\r/g\<close>\<close>
     (RE_g [Lit [CR, LF]], js [LF]),
     (RE_g [Lit [CR]], js [LF]),
     \<comment> \<open>\<open>/\n{3,}/g\<close>\<close>
     (RE_g [AtLeast 3 (In [Ch LF])], js [LF, LF]),
     \<comment> \<open>\<open>/[ \t]{2,}/g\<close>\<close>
     (RE_g [AtLeast 2 (In [Ch CHR '' '', Ch TAB])], js '' ''),
     \<comment> \<open>\<open>/^\s+/gm\<close>\<close>
     (RE_gm [Bol, Plus (In [WS])], []),
     \<comment> \<open>\<open>/\s+$/gm\<close>\<close>
     (RE_gm [Plus (In [WS]), Eol], []) ]\<close>

text \<open>The line filter of lines 210 to 223.\<close>

definition keep_line :: "jsstring \<Rightarrow> bool" where
  "keep_line line =
     (let trimmed = trim line in
      if trimmed = [] then True
      else if matches (RE_i [Bol, Alt [''font-'', ''color:'', ''background'', ''margin'', ''padding'',
                                        ''border'', ''width:'', ''height:'', ''display:'',
                                        ''position:'', ''text-'']]) trimmed then False
      else if matches (RE_plain [Bol, Plus (In [Dig]), Lit ''px'']) trimmed then False
      else if matches (RE_plain [Bol, Lit ''rgb('']) trimmed then False
      else if matches (RE_i [Bol, Lit ''#'',
                             Between 3 6 (In [Range CHR ''0'' CHR ''9'', Range CHR ''a'' CHR ''f'']),
                             Eol]) trimmed then False
      else if trimmed = js '';'' then False
      else if matches (RE_plain [Bol, Star (In [WS]), One (In [Ch CHR ''{'', Ch CHR ''}'']),
                                 Star (In [WS]), Eol]) trimmed then False
      else True)"

definition apply_steps :: "(regex \<times> jsstring) list \<Rightarrow> jsstring \<Rightarrow> jsstring" where
  "apply_steps steps text = foldl (\<lambda>t (re, rep). replaceAll re rep t) text steps"

text \<open>The argument is \<open>None\<close> for \<open>null\<close> and \<open>undefined\<close>; \<open>!text\<close> also holds of the empty
  string.\<close>

definition cleanText :: "jsstring option \<Rightarrow> jsstring" where
  "cleanText text =
     (case text of
        None \<Rightarrow> []
      | Some t0 \<Rightarrow>
          if t0 = [] then []
          else
            let t1 = apply_steps markup_steps t0;
                t2 = apply_steps entity_steps t1;
                t3 = apply_steps tail_steps t2;
                t4 = join_with 10 (filter keep_line (split_on 10 t3))
            in trim t4)"

section \<open>Shared helpers\<close>

text \<open>Truthiness of an optional string (\<open>undefined\<close>, \<open>null\<close> and \<open>''\<close> are falsy) and
  \<open>a || b\<close> on strings.\<close>

definition truthy :: "jsstring option \<Rightarrow> bool" where
  "truthy v = (case v of None \<Rightarrow> False | Some s \<Rightarrow> s \<noteq> [])"

definition or_else :: "jsstring option \<Rightarrow> jsstring option \<Rightarrow> jsstring option" where
  "or_else a b = (if truthy a then a else b)"

text \<open>A value inside a template literal: \<open>undefined\<close> is rendered as that word.\<close>

definition tpl :: "jsstring option \<Rightarrow> jsstring" where
  "tpl v = (case v of None \<Rightarrow> js ''undefined'' | Some s \<Rightarrow> s)"

text \<open>A non-negative integer as decimal text.\<close>

fun show_nat :: "nat \<Rightarrow> jsstring" where
  "show_nat n = (if n < 10 then [48 + n] else show_nat (n div 10) @ [48 + n mod 10])"

declare show_nat.simps [simp del]

text \<open>\<open>s.replace(a, b)\<close> with a one-character string pattern: the first occurrence only.\<close>

fun replace_first :: "nat \<Rightarrow> nat \<Rightarrow> jsstring \<Rightarrow> jsstring" where
  "replace_first a b [] = []"
| "replace_first a b (c # cs) = (if c = a then b # cs else c # replace_first a b cs)"

text \<open>\<open>name.replace(/[^a-z0-9]/gi, '_')\<close>, used for every output file name.\<close>

definition sanitize :: "jsstring \<Rightarrow> jsstring" where
  "sanitize s =
     replaceAll (RE_gi [One (NotIn [Range CHR ''a'' CHR ''z'', Range CHR ''0'' CHR ''9''])])
       (js ''_'') s"

text \<open>What can be thrown inside the archivers: a rejected request of an API client,
  the \<open>RangeError\<close> of \<open>toISOString\<close> on an invalid date, a \<open>TypeError\<close> on reading a
  property of \<open>undefined\<close>, a failed file write.\<close>

datatype js_error = RequestFailed | RangeError | TypeError | WriteFailed

section \<open>The chat archiver: \<open>SlackArchiver\<close>\<close>

type_synonym cursor = "jsstring option"

record slack_user =
  real_name :: "jsstring option"
  user_name :: "jsstring option"

record slack_attachment =
  title :: "jsstring option"
  fallback :: "jsstring option"

record slack_file =
  file_name :: "jsstring option"
  mimetype :: "jsstring option"

record slack_message =
  ts :: jsstring
  user :: "jsstring option"
  bot_id :: "jsstring option"
  username :: "jsstring option"
  message_text :: "jsstring option"
  message_attachments :: "slack_attachment list option"
  files :: "slack_file list option"
  reply_count :: "nat option"

record conversation =
  conversation_id :: jsstring
  conversation_name :: "jsstring option"

text \<open>
  The collaborators of the archiver. Each request of the Web API client is a function of
  its arguments, \<open>None\<close> when the awaited call rejects: the remote data do not change
  during a run. A successful page carries its items and
  \<open>response_metadata?.next_cursor\<close>. \<open>parseFloat\<close> maps a \<open>ts\<close> string to its number:
  the numbers that are not \<open>NaN\<close> are linearly ordered and \<open>a - b\<close> has the sign of their
  comparison, so the number type is any linear order \<open>'k\<close>. \<open>toISOString\<close> stands for
  \<open>new Date(parseFloat(ts) * 1000).toISOString()\<close>, which throws on an invalid date;
  \<open>now\<close> for \<open>new Date().toISOString()\<close>; \<open>writeFile_ok\<close> tells whether
  \<open>fs.writeFile\<close> succeeds for a file name.
\<close>

record 'k slack_env =
  conversations_list :: "cursor \<Rightarrow> (conversation list \<times> cursor) option"
  conversations_history :: "jsstring \<Rightarrow> cursor \<Rightarrow> (slack_message list \<times> cursor) option"
  users_info :: "jsstring \<Rightarrow> slack_user option"
  parseFloat :: "jsstring \<Rightarrow> 'k"
  toISOString :: "jsstring \<Rightarrow> jsstring option"
  now :: jsstring
  writeFile_ok :: "jsstring \<Rightarrow> bool"

text \<open>What a run does to the outside, in order.\<close>

datatype event =
    ConversationsList cursor
  | ConversationsHistory jsstring cursor
  | UsersInfo jsstring
  | Delay nat
  | WriteFile jsstring jsstring

text \<open>The archiver object: its user cache, and the events so far.\<close>

record slack_state =
  userCache :: "jsstring \<rightharpoonup> slack_user"
  trace :: "event list"

definition emit :: "event \<Rightarrow> slack_state \<Rightarrow> slack_state" where
  "emit e st = st\<lparr>trace := trace st @ [e]\<rparr>"

text \<open>The \<open>do ... while (cursor)\<close> loop of \<open>getConversations\<close>; \<open>Inl\<close> when the request
  throws. The loop has no pacing delay.\<close>

partial_function (option) getConversations_loop ::
  "'k slack_env \<Rightarrow> cursor \<Rightarrow> conversation list \<Rightarrow> slack_state
     \<Rightarrow> ((js_error + conversation list) \<times> slack_state) option" where
  "getConversations_loop env cursor conversations st =
     (case conversations_list env cursor of
        None \<Rightarrow> Some (Inl RequestFailed, emit (ConversationsList cursor) st)
      | Some (channels, next_cursor) \<Rightarrow>
          if truthy next_cursor
          then getConversations_loop env next_cursor (conversations @ channels)
                 (emit (ConversationsList cursor) st)
          else Some (Inr (conversations @ channels), emit (ConversationsList cursor) st))"

text \<open>\<open>getConversations\<close>: the \<open>catch\<close> block returns \<open>[]\<close>.\<close>

definition getConversations ::
  "'k slack_env \<Rightarrow> slack_state \<Rightarrow> (conversation list \<times> slack_state) option" where
  "getConversations env st =
     (case getConversations_loop env None [] st of
        None \<Rightarrow> None
      | Some (Inl e, st') \<Rightarrow> Some ([], st')
      | Some (Inr conversations, st') \<Rightarrow> Some (conversations, st'))"

text \<open>The loop of \<open>getConversationHistory\<close>: fetch, push, take the next cursor, wait
  1000 ms, repeat while the cursor is truthy.\<close>

partial_function (option) getConversationHistory_loop ::
  "'k slack_env \<Rightarrow> jsstring \<Rightarrow> cursor \<Rightarrow> slack_message list \<Rightarrow> slack_state
     \<Rightarrow> ((js_error + slack_message list) \<times> slack_state) option" where
  "getConversationHistory_loop env channelId cursor messages st =
     (case conversations_history env channelId cursor of
        None \<Rightarrow> Some (Inl RequestFailed, emit (ConversationsHistory channelId cursor) st)
      | Some (page, next_cursor) \<Rightarrow>
          if truthy next_cursor
          then getConversationHistory_loop env channelId next_cursor (messages @ page)
                 (emit (Delay 1000) (emit (ConversationsHistory channelId cursor) st))
          else Some (Inr (messages @ page),
                     emit (Delay 1000) (emit (ConversationsHistory channelId cursor) st)))"

text \<open>\<open>getConversationHistory\<close>: after the loop the messages are sorted with the
  comparator \<open>parseFloat(a.ts) - parseFloat(b.ts)\<close> (\<open>Array.prototype.sort\<close> is stable);
  the \<open>catch\<close> block returns \<open>[]\<close>.\<close>

definition getConversationHistory ::
  "('k::linorder) slack_env \<Rightarrow> jsstring \<Rightarrow> slack_state
     \<Rightarrow> (slack_message list \<times> slack_state) option" where
  "getConversationHistory env channelId st =
     (case getConversationHistory_loop env channelId None [] st of
        None \<Rightarrow> None
      | Some (Inl e, st') \<Rightarrow> Some ([], st')
      | Some (Inr messages, st') \<Rightarrow>
          Some (sort_key (\<lambda>m. parseFloat env (ts m)) messages, st'))"

text \<open>\<open>getUserInfo\<close>: the cache first; a successful lookup is stored, a failed one
  returns \<open>null\<close> and stores nothing.\<close>

definition getUserInfo ::
  "'k slack_env \<Rightarrow> jsstring \<Rightarrow> slack_state \<Rightarrow> slack_user option \<times> slack_state" where
  "getUserInfo env userId st =
     (case userCache st userId of
        Some u \<Rightarrow> (Some u, st)
      | None \<Rightarrow>
          (case users_info env userId of
             Some u \<Rightarrow> (Some u, emit (UsersInfo userId) (st\<lparr>userCache := (userCache st)(userId \<mapsto> u)\<rparr>))
           | None \<Rightarrow> (None, emit (UsersInfo userId) st)))"

text \<open>\<open>userInfo?.real_name || userInfo?.name || message.user\<close>.\<close>

definition display_name :: "slack_user option \<Rightarrow> jsstring \<Rightarrow> jsstring" where
  "display_name userInfo userId =
     (case userInfo of
        None \<Rightarrow> userId
      | Some u \<Rightarrow>
          if truthy (real_name u) then the (real_name u)
          else if truthy (user_name u) then the (user_name u)
          else userId)"

text \<open>The numbered lines of the attachment and file listings, \<open>i\<close> counting from 0.\<close>

fun attachment_lines :: "nat \<Rightarrow> slack_attachment list \<Rightarrow> jsstring" where
  "attachment_lines i [] = []"
| "attachment_lines i (att # atts) =
     js [LF] @ js ''    '' @ show_nat (i + 1) @ js ''. '' @
     (if truthy (title att) then the (title att)
      else if truthy (fallback att) then the (fallback att)
      else js ''Attachment'') @
     attachment_lines (i + 1) atts"

fun file_lines :: "nat \<Rightarrow> slack_file list \<Rightarrow> jsstring" where
  "file_lines i [] = []"
| "file_lines i (file # fs) =
     js [LF] @ js ''    '' @ show_nat (i + 1) @ js ''. '' @ tpl (file_name file) @ js '' ('' @
     tpl (mimetype file) @ js '')'' @ file_lines (i + 1) fs"

text \<open>The part of \<open>formatMessage\<close> after the user name is known.\<close>

definition render_message :: "jsstring \<Rightarrow> jsstring \<Rightarrow> slack_message \<Rightarrow> jsstring" where
  "render_message dateStr userName message =
     js ''['' @ dateStr @ js ''] '' @ userName @ js '':'' @ js [LF] @
     (if truthy (message_text message) then the (message_text message)
      else js ''(No text content)'') @
     (case message_attachments message of
        Some (att # atts) \<Rightarrow> js [LF] @ js ''  Attachments:'' @ attachment_lines 0 (att # atts)
      | _ \<Rightarrow> []) @
     (case files message of
        Some (file # fs) \<Rightarrow> js [LF] @ js ''  Files:'' @ file_lines 0 (file # fs)
      | _ \<Rightarrow> []) @
     (case reply_count message of
        Some n \<Rightarrow> if n > 0 then js [LF] @ js ''  [Thread with '' @ show_nat n @ js '' replies]'' else []
      | None \<Rightarrow> []) @
     js [LF, LF]"

text \<open>\<open>formatMessage\<close>: the date first (it may throw), then the user name, looked up
  through \<open>getUserInfo\<close> when the message has a \<open>user\<close>.\<close>

definition formatMessage ::
  "'k slack_env \<Rightarrow> slack_message \<Rightarrow> slack_state \<Rightarrow> (js_error + jsstring) \<times> slack_state" where
  "formatMessage env message st =
     (case toISOString env (ts message) of
        None \<Rightarrow> (Inl RangeError, st)
      | Some isoStr \<Rightarrow>
          let dateStr = take 19 (replace_first (of_char CHR ''T'') (of_char CHR '' '') isoStr)
          in if truthy (user message)
             then (let (userInfo, st') = getUserInfo env (the (user message)) st
                   in (Inr (render_message dateStr (display_name userInfo (the (user message))) message), st'))
             else if truthy (bot_id message)
             then (Inr (render_message dateStr
                          (js ''Bot ('' @ the (or_else (username message) (bot_id message)) @ js '')'')
                          message), st)
             else if truthy (username message)
             then (Inr (render_message dateStr (the (username message)) message), st)
             else (Inr (render_message dateStr (js ''Unknown User'') message), st))"

text \<open>The \<open>for\<close> loop of \<open>saveConversation\<close> over the messages; a throw ends it.\<close>

fun format_all ::
  "'k slack_env \<Rightarrow> slack_message list \<Rightarrow> jsstring \<Rightarrow> slack_state
     \<Rightarrow> (js_error + jsstring) \<times> slack_state" where
  "format_all env [] content st = (Inr content, st)"
| "format_all env (message # messages) content st =
     (case formatMessage env message st of
        (Inl e, st') \<Rightarrow> (Inl e, st')
      | (Inr formatted, st') \<Rightarrow> format_all env messages (content @ formatted) st')"

definition conversation_header :: "'k slack_env \<Rightarrow> conversation \<Rightarrow> nat \<Rightarrow> jsstring" where
  "conversation_header env conversation n =
     (let channelName = the (or_else (conversation_name conversation)
                                     (Some (conversation_id conversation)))
      in js ''# Slack Archive: '' @ channelName @ js [LF] @
         js ''# Channel ID: '' @ conversation_id conversation @ js [LF] @
         js ''# Exported: '' @ now env @ js [LF] @
         js ''# Total Messages: '' @ show_nat n @ js [LF] @
         js ''# '' @ replicate 50 (of_char CHR ''='') @ js [LF, LF])"

text \<open>\<open>saveConversation\<close>: one file per conversation, the messages in the order given.\<close>

definition saveConversation ::
  "'k slack_env \<Rightarrow> conversation \<Rightarrow> slack_message list \<Rightarrow> slack_state
     \<Rightarrow> (js_error + unit) \<times> slack_state" where
  "saveConversation env conversation messages st =
     (let channelName = the (or_else (conversation_name conversation)
                                     (Some (conversation_id conversation)));
          fileName = sanitize channelName @ js ''.txt''
      in case format_all env messages (conversation_header env conversation (length messages)) st of
           (Inl e, st') \<Rightarrow> (Inl e, st')
         | (Inr content, st') \<Rightarrow>
             if writeFile_ok env fileName then (Inr (), emit (WriteFile fileName content) st')
             else (Inl WriteFailed, st'))"

text \<open>The result of \<open>archive\<close>: its two counters.\<close>

record counters =
  successCount :: nat
  errorCount :: nat

text \<open>The \<open>for\<close> loop of \<open>archive\<close> over the conversations. A conversation whose history
  is empty is skipped; a throw of \<open>saveConversation\<close> is counted and the loop goes on.\<close>

fun archive_loop ::
  "('k::linorder) slack_env \<Rightarrow> conversation list \<Rightarrow> counters \<Rightarrow> slack_state
     \<Rightarrow> (counters \<times> slack_state) option" where
  "archive_loop env [] cnt st = Some (cnt, st)"
| "archive_loop env (conversation # rest) cnt st =
     (case getConversationHistory env (conversation_id conversation) st of
        None \<Rightarrow> None
      | Some (messages, st') \<Rightarrow>
          if length messages > 0
          then (case saveConversation env conversation messages st' of
                  (Inr _, st'') \<Rightarrow> archive_loop env rest (cnt\<lparr>successCount := successCount cnt + 1\<rparr>) st''
                | (Inl e, st'') \<Rightarrow> archive_loop env rest (cnt\<lparr>errorCount := errorCount cnt + 1\<rparr>) st'')
          else archive_loop env rest cnt st')"

text \<open>\<open>archive\<close>: nothing is archived when the list of conversations is empty. The
  creation of the output directory and the messages on the console are left out.\<close>

definition archive :: "('k::linorder) slack_env \<Rightarrow> slack_state \<Rightarrow> (counters \<times> slack_state) option" where
  "archive env st =
     (case getConversations env st of
        None \<Rightarrow> None
      | Some (conversations, st') \<Rightarrow>
          if length conversations = 0 then Some (\<lparr>successCount = 0, errorCount = 0\<rparr>, st')
          else archive_loop env conversations \<lparr>successCount = 0, errorCount = 0\<rparr> st')"

section \<open>The mail archiver: \<open>GmailArchiver\<close>\<close>

subsection \<open>\<open>getMessages\<close>\<close>

text \<open>
  \<open>gmail.users.messages.list\<close> is a function of the query, the page token and the
  requested \<open>maxResults\<close>; \<open>None\<close> when the call rejects. A response carries
  \<open>res.data.messages\<close>, which may be absent, and \<open>res.data.nextPageToken\<close>. The message
  references are not inspected, so their type is a parameter.
\<close>

type_synonym 'm messages_list =
  "jsstring \<Rightarrow> jsstring option \<Rightarrow> nat \<Rightarrow> ('m list option \<times> jsstring option) option"

datatype gmail_event = MessagesList jsstring "jsstring option" nat | GmailDelay nat

text \<open>Truthiness of \<open>maxResults\<close>: \<open>null\<close> and 0 are falsy.\<close>

definition limited :: "nat option \<Rightarrow> bool" where
  "limited maxResults = (case maxResults of None \<Rightarrow> False | Some k \<Rightarrow> k \<noteq> 0)"

text \<open>The \<open>maxResults\<close> of a request: \<open>Math.min(500, maxResults)\<close> for the first request,
  and for every request made while nothing has been fetched, 500 for the others.\<close>

definition requested :: "nat option \<Rightarrow> nat \<Rightarrow> nat" where
  "requested maxResults totalFetched =
     (if limited maxResults \<and> totalFetched = 0 then min 500 (the maxResults) else 500)"

text \<open>The messages a response adds (\<open>if (res.data.messages)\<close>), and \<open>totalFetched\<close>
  after it.\<close>

definition page_items :: "'m list option \<Rightarrow> 'm list" where
  "page_items page = (case page of Some ms \<Rightarrow> ms | None \<Rightarrow> [])"

definition fetched_after :: "nat \<Rightarrow> 'm list option \<Rightarrow> nat" where
  "fetched_after totalFetched page =
     (case page of Some ms \<Rightarrow> totalFetched + length ms | None \<Rightarrow> totalFetched)"

text \<open>The loop of \<open>getMessages\<close>. The messages of a page are pushed when the page has
  any. The loop leaves through \<open>break\<close>, before the delay, once
  \<open>totalFetched >= maxResults\<close>; nothing is cut from the last page.\<close>

partial_function (option) getMessages_loop ::
  "'m messages_list \<Rightarrow> jsstring \<Rightarrow> nat option \<Rightarrow> jsstring option \<Rightarrow> 'm list \<Rightarrow> nat
     \<Rightarrow> gmail_event list \<Rightarrow> ((js_error + 'm list) \<times> gmail_event list) option" where
  "getMessages_loop list_api query maxResults pageToken messages totalFetched tr =
     (case list_api query pageToken (requested maxResults totalFetched) of
        None \<Rightarrow>
          Some (Inl RequestFailed,
                tr @ [MessagesList query pageToken (requested maxResults totalFetched)])
      | Some (page, nextPageToken) \<Rightarrow>
          if limited maxResults \<and> fetched_after totalFetched page \<ge> the maxResults
          then Some (Inr (messages @ page_items page),
                     tr @ [MessagesList query pageToken (requested maxResults totalFetched)])
          else if truthy nextPageToken
          then getMessages_loop list_api query maxResults nextPageToken
                 (messages @ page_items page) (fetched_after totalFetched page)
                 (tr @ [MessagesList query pageToken (requested maxResults totalFetched),
                        GmailDelay 100])
          else Some (Inr (messages @ page_items page),
                     tr @ [MessagesList query pageToken (requested maxResults totalFetched),
                           GmailDelay 100]))"

text \<open>\<open>getMessages\<close>: the \<open>catch\<close> block returns \<open>[]\<close>.\<close>

definition getMessages ::
  "'m messages_list \<Rightarrow> jsstring \<Rightarrow> nat option \<Rightarrow> gmail_event list
     \<Rightarrow> ('m list \<times> gmail_event list) option" where
  "getMessages list_api query maxResults tr =
     (case getMessages_loop list_api query maxResults None [] 0 tr of
        None \<Rightarrow> None
      | Some (Inl e, tr') \<Rightarrow> Some ([], tr')
      | Some (Inr messages, tr') \<Rightarrow> Some (messages, tr'))"

subsection \<open>\<open>extractBody\<close> and \<open>extractAttachments\<close>\<close>

record part_body =
  data :: "jsstring option"
  size' :: "nat option"

datatype part =
  Part (mimeType: "jsstring option") (filename: "jsstring option")
       (body: "part_body option") (parts: "part list option")

text \<open>\<open>x.body && x.body.data\<close> as a truth value, and the data then.\<close>

definition has_data :: "part_body option \<Rightarrow> bool" where
  "has_data b = (case b of None \<Rightarrow> False | Some bd \<Rightarrow> truthy (data bd))"

definition body_data :: "part_body option \<Rightarrow> jsstring option" where
  "body_data b = (case b of None \<Rightarrow> None | Some bd \<Rightarrow> data bd)"

text \<open>\<open>decodeBase64\<close>: \<open>-\<close> becomes \<open>+\<close> and \<open>_\<close> becomes \<open>/\<close>, then
  \<open>Buffer.from(..., 'base64').toString('utf-8')\<close>, a built-in taken as the parameter
  \<open>base64\<close>.\<close>

definition decodeBase64 :: "(jsstring \<Rightarrow> jsstring) \<Rightarrow> jsstring option \<Rightarrow> jsstring" where
  "decodeBase64 base64 d =
     (if \<not> truthy d then []
      else base64 (map (\<lambda>c. if c = of_char CHR ''_'' then of_char CHR ''/'' else c)
                     (map (\<lambda>c. if c = of_char CHR ''-'' then of_char CHR ''+'' else c) (the d))))"

text \<open>\<open>extractBody\<close>; \<open>includeMarkup\<close> is the option of the archiver. A part of the list
  adds its own text when it is \<open>text/plain\<close> with data, its HTML between two marker lines
  when markup is kept, and otherwise, when it has a \<open>parts\<close> array, the result of the
  recursive call. Unless markup is kept the result goes through \<open>cleanText\<close>, at every
  level of the recursion.\<close>

fun extractBody :: "(jsstring \<Rightarrow> jsstring) \<Rightarrow> bool \<Rightarrow> part \<Rightarrow> jsstring" where
  "extractBody base64 includeMarkup (Part ty fname b ps) =
     (let body0 = (if has_data b then decodeBase64 base64 (body_data b) else []);
          body1 =
            (case ps of
               None \<Rightarrow> body0
             | Some plist \<Rightarrow>
                 body0 @
                 concat (map (\<lambda>p.
                    if mimeType p = Some (js ''text/plain'') \<and> has_data (body p)
                    then decodeBase64 base64 (body_data (body p))
                    else if includeMarkup \<and> mimeType p = Some (js ''text/html'') \<and> has_data (body p)
                    then js [LF] @ js ''--- HTML Content ---'' @ js [LF] @
                         decodeBase64 base64 (body_data (body p)) @
                         js [LF] @ js ''--- End HTML ---'' @ js [LF]
                    else if parts p \<noteq> None then extractBody base64 includeMarkup p
                    else []) plist))
      in if includeMarkup then body1 else cleanText (Some body1))"

record attachment =
  att_filename :: jsstring
  att_mimeType :: "jsstring option"
  att_size :: "nat option"

text \<open>\<open>extractAttachments\<close>. A part with a non-empty \<open>filename\<close> is listed with
  \<open>part.body.size\<close>: reading it throws a \<open>TypeError\<close> when the part has no \<open>body\<close>. Then
  the parts of the part are visited, whatever the part is.\<close>

fun extractAttachments :: "part \<Rightarrow> js_error + attachment list"
  and extractAttachments_parts :: "part list \<Rightarrow> js_error + attachment list" where
  "extractAttachments (Part ty fname b ps) =
     (case ps of None \<Rightarrow> Inr [] | Some plist \<Rightarrow> extractAttachments_parts plist)"
| "extractAttachments_parts [] = Inr []"
| "extractAttachments_parts (p # rest) =
     (case (if truthy (filename p)
            then (case body p of
                    None \<Rightarrow> Inl TypeError
                  | Some bd \<Rightarrow> Inr [\<lparr>att_filename = the (filename p), att_mimeType = mimeType p,
                                     att_size = size' bd\<rparr>])
            else Inr []) of
        Inl e \<Rightarrow> Inl e
      | Inr own \<Rightarrow>
          (case (if parts p \<noteq> None then extractAttachments p else Inr []) of
             Inl e \<Rightarrow> Inl e
           | Inr nested \<Rightarrow>
               (case extractAttachments_parts rest of
                  Inl e \<Rightarrow> Inl e
                | Inr others \<Rightarrow> Inr (own @ nested @ others))))"

section \<open>The calendar archiver: \<open>CalendarArchiver\<close>\<close>

subsection \<open>\<open>saveCalendarEvents\<close>\<close>

text \<open>
  Of an event only \<open>start\<close> is read here. \<open>local_date\<close> stands for \<open>new Date(...)\<close>
  followed by \<open>getFullYear()\<close> and \<open>getMonth()\<close> in the local time zone, applied to
  \<open>event.start?.dateTime || event.start?.date\<close>; it is \<open>None\<close> for an invalid date, whose
  fields are \<open>NaN\<close>. \<open>formatEvent\<close> and the month title of \<open>toLocaleDateString\<close> are
  parameters: they render text and do not touch the order of the events.
\<close>

record event_time =
  dateTime :: "jsstring option"
  date :: "jsstring option"

record 'a calendar_event =
  start :: "event_time option"
  details :: 'a

record 'a calendar_env =
  local_date :: "jsstring option \<Rightarrow> (int \<times> nat) option"
  formatEvent :: "'a calendar_event \<Rightarrow> jsstring"
  monthName :: "jsstring \<Rightarrow> jsstring"
  exported :: jsstring

definition show_int :: "int \<Rightarrow> jsstring" where
  "show_int i = (if i < 0 then of_char CHR ''-'' # show_nat (nat (- i)) else show_nat (nat i))"

text \<open>\<open>s.padStart(2, '0')\<close>.\<close>

definition padStart2 :: "jsstring \<Rightarrow> jsstring" where
  "padStart2 s = replicate (2 - length s) (of_char CHR ''0'') @ s"

text \<open>\<open>event.start?.dateTime || event.start?.date\<close>.\<close>

definition start_string :: "'a calendar_event \<Rightarrow> jsstring option" where
  "start_string ev =
     (case start ev of None \<Rightarrow> None | Some t \<Rightarrow> or_else (dateTime t) (date t))"

definition monthKey :: "'a calendar_env \<Rightarrow> 'a calendar_event \<Rightarrow> jsstring" where
  "monthKey env ev =
     (case local_date env (start_string ev) of
        None \<Rightarrow> js ''NaN-NaN''
      | Some (y, m) \<Rightarrow> show_int y @ js ''-'' @ padStart2 (show_nat (m + 1)))"

text \<open>\<open>eventsByMonth\<close>: an object used as a dictionary, whose keys keep the order in
  which they were first written; an event is pushed on the list of its key.\<close>

fun push_event :: "jsstring \<Rightarrow> 'e \<Rightarrow> (jsstring \<times> 'e list) list \<Rightarrow> (jsstring \<times> 'e list) list" where
  "push_event k ev [] = [(k, [ev])]"
| "push_event k ev ((k', evs) # rest) =
     (if k = k' then (k', evs @ [ev]) # rest else (k', evs) # push_event k ev rest)"

definition eventsByMonth ::
  "'a calendar_env \<Rightarrow> 'a calendar_event list \<Rightarrow> (jsstring \<times> 'a calendar_event list) list" where
  "eventsByMonth env events = foldl (\<lambda>acc ev. push_event (monthKey env ev) ev acc) [] events"

text \<open>\<open>Object.keys(eventsByMonth).sort()\<close>: the default sort compares strings by their
  code units, which is the lexicographic order of the lists.\<close>

definition sortedMonths :: "'a calendar_env \<Rightarrow> 'a calendar_event list \<Rightarrow> jsstring list" where
  "sortedMonths env events = sort (map fst (eventsByMonth env events))"

text \<open>The months in the order in which they are written, each with its events in the
  order in which they are written.\<close>

definition month_sections ::
  "'a calendar_env \<Rightarrow> 'a calendar_event list \<Rightarrow> (jsstring \<times> 'a calendar_event list) list" where
  "month_sections env events =
     map (\<lambda>k. (k, the (map_of (eventsByMonth env events) k))) (sortedMonths env events)"




subsection \<open>\<open>getEvents\<close>\<close>





section \<open>Notions used in the statements\<close>

text \<open>The characters on which the patterns of \<open>cleanText\<close> depend, the space apart:
  the other white space and \<open><\<close>, \<open>=\<close>, \<open>{\<close>, \<open>-\<close>, \<open>:\<close>, \<open>&\<close>. A string is inert when it has
  none of them: one line of words, separated by spaces.\<close>

definition special :: "nat \<Rightarrow> bool" where
  "special x \<longleftrightarrow> (is_space x \<and> x \<noteq> 32) \<or> x = 60 \<or> x = 61 \<or> x = 123 \<or> x = 45 \<or> x = 58 \<or> x = 38"

definition inert :: "jsstring \<Rightarrow> bool" where
  "inert s = list_all (\<lambda>x. \<not> special x) s"






text \<open>No two spaces in a row; the number of spaces at the start; a string without the
  spaces at its end.\<close>

fun nodouble :: "jsstring \<Rightarrow> bool" where
  "nodouble [] = True"
| "nodouble [x] = True"
| "nodouble (x # y # zs) = (\<not> (x = 32 \<and> y = 32) \<and> nodouble (y # zs))"

definition blank_run :: "jsstring \<Rightarrow> nat" where
  "blank_run s = length (takeWhile (\<lambda>x. x = 32) s)"


text \<open>An inert string is tidy when its words are separated by single spaces and it
  neither starts nor ends with a space.\<close>

definition tidy :: "jsstring \<Rightarrow> bool" where
  "tidy t \<longleftrightarrow> inert t \<and> nodouble t \<and> blank_run t = 0 \<and> (t = [] \<or> last t \<noteq> 32)"


text \<open>What the history service answers for a channel, from a cursor on: the pages \<open>pgs\<close>,
  one after the other, every page but the last with a truthy next cursor.\<close>

fun history_pages :: "'k slack_env \<Rightarrow> jsstring \<Rightarrow> cursor \<Rightarrow> slack_message list list \<Rightarrow> bool" where
  "history_pages env ch c [] = False"
| "history_pages env ch c (pg # pgs) =
     (case conversations_history env ch c of
        None \<Rightarrow> False
      | Some (page, next_cursor) \<Rightarrow>
          page = pg \<and>
          (if pgs = [] then \<not> truthy next_cursor
           else truthy next_cursor \<and> history_pages env ch next_cursor pgs))"

text \<open>The history service answers the pages \<open>pgs\<close>, each with a truthy next cursor, and
  the request after them fails.\<close>

fun history_fails_after :: "'k slack_env \<Rightarrow> jsstring \<Rightarrow> cursor \<Rightarrow> slack_message list list \<Rightarrow> bool" where
  "history_fails_after env ch c [] = (conversations_history env ch c = None)"
| "history_fails_after env ch c (pg # pgs) =
     (case conversations_history env ch c of
        None \<Rightarrow> False
      | Some (page, next_cursor) \<Rightarrow>
          page = pg \<and> truthy next_cursor \<and> history_fails_after env ch next_cursor pgs)"


text \<open>Counting the events of a trace.\<close>

fun is_fetch :: "event \<Rightarrow> bool" where
  "is_fetch (ConversationsList c) = True"
| "is_fetch (ConversationsHistory ch c) = True"
| "is_fetch _ = False"

fun is_delay :: "event \<Rightarrow> bool" where
  "is_delay (Delay ms) = True"
| "is_delay _ = False"

fun is_write :: "event \<Rightarrow> bool" where
  "is_write (WriteFile name content) = True"
| "is_write _ = False"

definition fetches :: "event list \<Rightarrow> nat" where
  "fetches tr = length (filter is_fetch tr)"

definition delays :: "event list \<Rightarrow> nat" where
  "delays tr = length (filter is_delay tr)"

definition queries :: "jsstring \<Rightarrow> event list \<Rightarrow> nat" where
  "queries u tr = count_list tr (UsersInfo u)"

text \<open>A fresh archiver: an empty cache, nothing done yet.\<close>

definition fresh :: slack_state where
  "fresh = \<lparr>userCache = Map.empty, trace = []\<rparr>"

text \<open>A sequence of identity lookups in one run.\<close>

fun lookups :: "'k slack_env \<Rightarrow> jsstring list \<Rightarrow> slack_state \<Rightarrow> slack_user option list \<times> slack_state" where
  "lookups env [] st = ([], st)"
| "lookups env (u # us) st =
     (case getUserInfo env u st of
        (r, st') \<Rightarrow> (case lookups env us st' of (rs, st'') \<Rightarrow> (r # rs, st'')))"

text \<open>What \<open>formatMessage\<close> returns for a message whose date is valid, as a function of
  what the identity service answers.\<close>

definition formatted :: "'k slack_env \<Rightarrow> slack_message \<Rightarrow> jsstring" where
  "formatted env message =
     render_message
       (take 19 (replace_first (of_char CHR ''T'') (of_char CHR '' '') (the (toISOString env (ts message)))))
       (if truthy (user message)
        then display_name (users_info env (the (user message))) (the (user message))
        else if truthy (bot_id message)
        then js ''Bot ('' @ the (or_else (username message) (bot_id message)) @ js '')''
        else if truthy (username message) then the (username message)
        else js ''Unknown User'')
       message"

text \<open>The cache holds nothing but answers of the identity service.\<close>

definition cache_ok :: "'k slack_env \<Rightarrow> slack_state \<Rightarrow> bool" where
  "cache_ok env st = (\<forall>u info. userCache st u = Some info \<longrightarrow> users_info env u = Some info)"

text \<open>A small workspace for the examples: the channel \<open>C1\<close> has the messages 3, 1 on
  its first page and 2 on its second, all of the user \<open>U1\<close>, whom the identity service
  knows; the channel \<open>C2\<close> has one page and the request for the next fails; the user \<open>U9\<close>
  cannot be resolved. Timestamps are single digits.\<close>

definition msg :: "string \<Rightarrow> string \<Rightarrow> slack_message" where
  "msg t u = \<lparr>ts = js t, user = Some (js u), bot_id = None, username = None,
              message_text = Some (js ''hi''), message_attachments = None, files = None,
              reply_count = None\<rparr>"

definition demo_env :: "nat slack_env" where
  "demo_env =
     \<lparr>conversations_list =
        (\<lambda>c. if c = None
             then Some ([\<lparr>conversation_id = js ''C2'', conversation_name = Some (js ''ops'')\<rparr>],
                        Some (js ''n1''))
             else if c = Some (js ''n1'')
             then Some ([\<lparr>conversation_id = js ''C1'', conversation_name = Some (js ''general'')\<rparr>],
                        Some [])
             else None),
      conversations_history =
        (\<lambda>ch c. if ch = js ''C1'' \<and> c = None then Some ([msg ''3'' ''U1'', msg ''1'' ''U1''], Some (js ''h1''))
                else if ch = js ''C1'' \<and> c = Some (js ''h1'') then Some ([msg ''2'' ''U1''], None)
                else if ch = js ''C2'' \<and> c = None then Some ([msg ''5'' ''U9''], Some (js ''h1''))
                else None),
      users_info =
        (\<lambda>u. if u = js ''U1'' then Some \<lparr>real_name = Some (js ''Ann''), user_name = Some (js ''ann'')\<rparr>
              else None),
      parseFloat = (\<lambda>t. foldl (\<lambda>a d. 10 * a + (d - 48)) 0 t),
      toISOString = (\<lambda>t. Some (js ''1970-01-01T00:00:0'' @ t @ js ''.000Z'')),
      now = js ''2024-01-01T00:00:00.000Z'',
      writeFile_ok = (\<lambda>name. True)\<rparr>"

text \<open>The two pages of the channel \<open>C1\<close> of the example workspace.\<close>

definition demo_pages :: "slack_message list list" where
  "demo_pages = [[msg ''3'' ''U1'', msg ''1'' ''U1''], [msg ''2'' ''U1'']]"

text \<open>The file name of a conversation.\<close>

definition conversation_file :: "conversation \<Rightarrow> jsstring" where
  "conversation_file conv =
     sanitize (the (or_else (conversation_name conv) (Some (conversation_id conv)))) @ js ''.txt''"

text \<open>The conversation \<open>C1\<close> of the example workspace.\<close>

definition demo_conv :: conversation where
  "demo_conv = \<lparr>conversation_id = js ''C1'', conversation_name = Some (js ''general'')\<rparr>"

text \<open>The list service answers the pages \<open>pgs\<close> to the requests of \<open>getMessages\<close>, none
  of them reaching the maximum and each with a truthy next page token, and the request
  after them fails.\<close>

fun messages_fail_after ::
  "'m messages_list \<Rightarrow> jsstring \<Rightarrow> nat option \<Rightarrow> jsstring option \<Rightarrow> nat \<Rightarrow> 'm list option list \<Rightarrow> bool" where
  "messages_fail_after list_api q mx tok fetched [] =
     (list_api q tok (requested mx fetched) = None)"
| "messages_fail_after list_api q mx tok fetched (pg # pgs) =
     (case list_api q tok (requested mx fetched) of
        None \<Rightarrow> False
      | Some (page, nextPageToken) \<Rightarrow>
          page = pg \<and> \<not> (limited mx \<and> fetched_after fetched page \<ge> the mx) \<and>
          truthy nextPageToken \<and>
          messages_fail_after list_api q mx nextPageToken (fetched_after fetched page) pgs)"


fun is_list_request :: "gmail_event \<Rightarrow> bool" where
  "is_list_request (MessagesList q tok n) = True"
| "is_list_request _ = False"

definition list_requests :: "gmail_event list \<Rightarrow> nat" where
  "list_requests tr = length (filter is_list_request tr)"

text \<open>A list service over the messages \<open>all\<close> that serves what is asked: a page has the
  requested number of messages, or those that are left, and the page token, as many
  \<open>x\<close> as messages served so far, is absent after the last message.\<close>

definition mailbox :: "'m list \<Rightarrow> 'm messages_list" where
  "mailbox all q tok n =
     (let served = (case tok of None \<Rightarrow> 0 | Some t \<Rightarrow> length t)
      in Some (Some (take n (drop served all)),
               if served + n < length all then Some (replicate (served + n) (of_char CHR ''x''))
               else None))"

text \<open>A list service that serves the first page of a mailbox and fails afterwards.\<close>

definition flaky_mailbox :: "'m list \<Rightarrow> 'm messages_list" where
  "flaky_mailbox all q tok n = (if tok = None then mailbox all q tok n else None)"

text \<open>The conversation \<open>C2\<close> of the example workspace, whose second page cannot be
  fetched.\<close>

definition demo_conv2 :: conversation where
  "demo_conv2 = \<lparr>conversation_id = js ''C2'', conversation_name = Some (js ''ops'')\<rparr>"

text \<open>What a part of the \<open>parts\<close> array adds to the body: the three branches of the loop
  of \<open>extractBody\<close>.\<close>

definition part_text :: "(jsstring \<Rightarrow> jsstring) \<Rightarrow> bool \<Rightarrow> part \<Rightarrow> jsstring" where
  "part_text base64 includeMarkup p =
     (if mimeType p = Some (js ''text/plain'') \<and> has_data (body p)
      then decodeBase64 base64 (body_data (body p))
      else if includeMarkup \<and> mimeType p = Some (js ''text/html'') \<and> has_data (body p)
      then js [LF] @ js ''--- HTML Content ---'' @ js [LF] @
           decodeBase64 base64 (body_data (body p)) @
           js [LF] @ js ''--- End HTML ---'' @ js [LF]
      else if parts p \<noteq> None then extractBody base64 includeMarkup p
      else [])"

text \<open>Every part below \<open>p\<close> that carries a file name has a \<open>body\<close>, as every part of a
  message of the mail service has.\<close>

fun bodies_present :: "part \<Rightarrow> bool" where
  "bodies_present (Part ty fname b ps) =
     (case ps of
        None \<Rightarrow> True
      | Some plist \<Rightarrow> (\<forall>p\<in>set plist. (truthy (filename p) \<longrightarrow> body p \<noteq> None) \<and> bodies_present p))"

text \<open>A message of three levels for the examples: the top part has a plain-text part
  whose data decode to \<open><b>hi</b>\<close>, and that part has a part with the file name
  \<open>a.pdf\<close>. \<open>demo_base64\<close> decodes that one string, as base64 does.\<close>

definition demo_base64 :: "jsstring \<Rightarrow> jsstring" where
  "demo_base64 d = (if d = js ''PGI+aGk8L2I+'' then js ''<b>hi</b>'' else [])"

definition demo_subsub :: part where
  "demo_subsub = Part (Some (js ''application/pdf'')) (Some (js ''a.pdf''))
                      (Some \<lparr>data = None, size' = Some 10\<rparr>) None"

definition demo_sub :: part where
  "demo_sub = Part (Some (js ''text/plain'')) None
                   (Some \<lparr>data = Some (js ''PGI+aGk8L2I+''), size' = Some 12\<rparr>) (Some [demo_subsub])"

definition demo_payload :: part where
  "demo_payload = Part (Some (js ''multipart/mixed'')) None None (Some [demo_sub])"

text \<open>A calendar for the examples: all-day events given by their date and a title; the
  local dates of three days; the start time of an event is its date string, whose order
  is the order of the days.\<close>

definition day_event :: "string \<Rightarrow> string \<Rightarrow> jsstring calendar_event" where
  "day_event d t = \<lparr>start = Some \<lparr>dateTime = None, date = Some (js d)\<rparr>, details = js t\<rparr>"

definition demo_cal :: "jsstring calendar_env" where
  "demo_cal =
     \<lparr>local_date =
        (\<lambda>s. if s = Some (js ''2024-01-10'') \<or> s = Some (js ''2024-01-20'') then Some (2024, 0)
              else if s = Some (js ''2024-02-05'') then Some (2024, 1)
              else None),
      formatEvent = details,
      monthName = (\<lambda>k. k),
      exported = js ''2024-03-01T00:00:00.000Z''\<rparr>"




section \<open>Properties of the text normalizer\<close>

lemmas cleanText_eval =
  cleanText_def js_def apply_steps_def markup_steps_def entity_steps_def entities_def
  tail_steps_def css_value_def replaceAll_def match_at_def avail_def prev_after_def at_bol_def
  at_eol_def at_word_boundary_def is_space_def is_digit_def is_word_char_def
  is_line_terminator_def swapcase_def keep_line_def matches_def trim_def Let_def

lemma takeWhile_dropWhile_Nil: "takeWhile P (dropWhile P xs) = []"
  by (induction xs) auto

lemma trim_no_trailing: "takeWhile is_space (rev (trim s)) = []"
  by (simp add: trim_def takeWhile_dropWhile_Nil)

lemma trim_no_leading: "takeWhile is_space (trim s) = []"
proof (cases "dropWhile is_space s")
  case Nil
  show ?thesis unfolding trim_def Nil by simp
next
  case (Cons y ys)
  then have ny: "\<not> is_space y"
    using hd_dropWhile [of is_space s] by auto
  have "dropWhile is_space (rev ys @ [y]) = dropWhile is_space (rev ys) @ [y]"
    using ny by (induction "rev ys" arbitrary: ys) (auto simp: dropWhile_append)
  then show ?thesis
    unfolding trim_def Cons using ny by simp
qed

text \<open>
  C9. The entity table is decoded: on \<open>&amp;&lt;&gt;\<close> the normalizer returns exactly
  \<open>&<>\<close>.
\<close>

theorem cleanText_entities: "cleanText (Some (js ''&amp;&lt;&gt;'')) = js ''&<>''"
  by (simp add: cleanText_eval)

text \<open>
  C10. \<open>cleanText\<close> returns a string for every argument: the empty string for \<open>null\<close>,
  \<open>undefined\<close> and the empty string, and always a string whose longest run of white space
  at the start is empty and whose longest run of white space at the end is empty.
\<close>

theorem cleanText_total_trimmed:
  "cleanText None = [] \<and> cleanText (Some []) = [] \<and>
   takeWhile is_space (cleanText t) = [] \<and> takeWhile is_space (rev (cleanText t)) = []"
  by (auto simp: cleanText_def Let_def trim_no_leading trim_no_trailing split: option.splits)

































lemma blank_run_Nil [simp]: "blank_run [] = 0"
  by (simp add: blank_run_def)

lemma blank_run_Cons: "blank_run (c # cs) = (if c = 32 then Suc (blank_run cs) else 0)"
  by (simp add: blank_run_def)



lemma blank_run_dropWhile [simp]: "blank_run (dropWhile (\<lambda>x. x = 32) s) = 0"
  by (induction s) (simp_all add: blank_run_Cons)























lemma tidy_Nil: "tidy []"
  by (simp add: tidy_def inert_def)













section \<open>Properties of the chat archiver\<close>

lemma trace_emit [simp]: "trace (emit e st) = trace st @ [e]"
  by (simp add: emit_def)

lemma userCache_emit [simp]: "userCache (emit e st) = userCache st"
  by (simp add: emit_def)

lemma history_loop_pages:
  "history_pages env ch c pgs \<Longrightarrow>
   \<exists>cs st'. length cs = length pgs \<and> hd cs = c \<and>
     getConversationHistory_loop env ch c msgs st = Some (Inr (msgs @ concat pgs), st') \<and>
     userCache st' = userCache st \<and>
     trace st' = trace st @ concat (map (\<lambda>c. [ConversationsHistory ch c, Delay 1000]) cs)"
proof (induction pgs arbitrary: c msgs st)
  case Nil
  then show ?case by simp
next
  case (Cons pg pgs)
  from Cons.prems obtain next_cursor where
    f: "conversations_history env ch c = Some (pg, next_cursor)" and
    r: "if pgs = [] then \<not> truthy next_cursor
        else truthy next_cursor \<and> history_pages env ch next_cursor pgs"
    by (auto split: option.splits)
  let ?st = "emit (Delay 1000) (emit (ConversationsHistory ch c) st)"
  show ?case
  proof (cases "pgs = []")
    case True
    with r have "getConversationHistory_loop env ch c msgs st = Some (Inr (msgs @ pg), ?st)"
      by (subst getConversationHistory_loop.simps) (simp add: f)
    with True show ?thesis
      by (intro exI [of _ "[c]"] exI [of _ ?st]) simp
  next
    case False
    with r have t: "truthy next_cursor" and p: "history_pages env ch next_cursor pgs" by auto
    from Cons.IH [OF p, of "msgs @ pg" ?st] obtain cs st' where
      cs: "length cs = length pgs" "hd cs = next_cursor"
        "getConversationHistory_loop env ch next_cursor (msgs @ pg) ?st =
           Some (Inr ((msgs @ pg) @ concat pgs), st')"
        "userCache st' = userCache ?st"
        "trace st' = trace ?st @ concat (map (\<lambda>c. [ConversationsHistory ch c, Delay 1000]) cs)"
      by blast
    have "getConversationHistory_loop env ch c msgs st =
            getConversationHistory_loop env ch next_cursor (msgs @ pg) ?st"
      by (subst getConversationHistory_loop.simps) (simp add: f t)
    with cs show ?thesis
      by (intro exI [of _ "c # cs"] exI [of _ st']) simp
  qed
qed

lemma history_loop_fails:
  "history_fails_after env ch c pgs \<Longrightarrow>
   \<exists>st'. getConversationHistory_loop env ch c msgs st = Some (Inl RequestFailed, st') \<and>
     userCache st' = userCache st \<and>
     filter is_write (trace st') = filter is_write (trace st)"
proof (induction pgs arbitrary: c msgs st)
  case Nil
  then have "getConversationHistory_loop env ch c msgs st =
               Some (Inl RequestFailed, emit (ConversationsHistory ch c) st)"
    by (subst getConversationHistory_loop.simps) simp
  then show ?case by simp
next
  case (Cons pg pgs)
  from Cons.prems obtain next_cursor where
    f: "conversations_history env ch c = Some (pg, next_cursor)" and
    t: "truthy next_cursor" and p: "history_fails_after env ch next_cursor pgs"
    by (auto split: option.splits)
  let ?st = "emit (Delay 1000) (emit (ConversationsHistory ch c) st)"
  have "getConversationHistory_loop env ch c msgs st =
          getConversationHistory_loop env ch next_cursor (msgs @ pg) ?st"
    by (subst getConversationHistory_loop.simps) (simp add: f t)
  with Cons.IH [OF p, of "msgs @ pg" ?st] show ?case by auto
qed


lemma fetches_append [simp]: "fetches (xs @ ys) = fetches xs + fetches ys"
  by (simp add: fetches_def)

lemma delays_append [simp]: "delays (xs @ ys) = delays xs + delays ys"
  by (simp add: delays_def)

lemma fetches_history_events [simp]:
  "fetches (concat (map (\<lambda>c. [ConversationsHistory ch c, Delay ms]) cs)) = length cs"
  by (induction cs) (simp_all add: fetches_def)

lemma delays_history_events [simp]:
  "delays (concat (map (\<lambda>c. [ConversationsHistory ch c, Delay ms]) cs)) = length cs"
  by (induction cs) (simp_all add: delays_def)

lemma fetches_list_events [simp]: "fetches (map ConversationsList cs) = length cs"
  by (induction cs) (simp_all add: fetches_def)

lemma delays_list_events [simp]: "delays (map ConversationsList cs) = 0"
  by (induction cs) (simp_all add: delays_def)

lemma getConversationHistory_pages:
  assumes "history_pages env ch None pgs"
  shows "\<exists>cs st'. length cs = length pgs \<and>
     getConversationHistory env ch st = Some (sort_key (\<lambda>m. parseFloat env (ts m)) (concat pgs), st') \<and>
     userCache st' = userCache st \<and>
     trace st' = trace st @ concat (map (\<lambda>c. [ConversationsHistory ch c, Delay 1000]) cs)"
proof -
  from history_loop_pages [OF assms, of "[]" st] obtain cs st' where
    "length cs = length pgs"
    "getConversationHistory_loop env ch None [] st = Some (Inr (concat pgs), st')"
    "userCache st' = userCache st"
    "trace st' = trace st @ concat (map (\<lambda>c. [ConversationsHistory ch c, Delay 1000]) cs)"
    by auto
  then show ?thesis
    by (intro exI [of _ cs] exI [of _ st']) (simp add: getConversationHistory_def)
qed


lemma demo_history_pages: "history_pages demo_env (js ''C1'') None demo_pages"
  by (simp add: demo_pages_def demo_env_def js_def truthy_def)




lemma getUserInfo_result:
  "cache_ok env st \<Longrightarrow>
   fst (getUserInfo env u st) = users_info env u \<and> cache_ok env (snd (getUserInfo env u st))"
  by (auto simp: getUserInfo_def cache_ok_def split: option.splits)

lemma getUserInfo_writes:
  "filter is_write (trace (snd (getUserInfo env u st))) = filter is_write (trace st)"
  by (auto simp: getUserInfo_def split: option.splits)

lemma getUserInfo_queries:
  "queries v (trace (snd (getUserInfo env u st))) =
     queries v (trace st) + (if u = v \<and> userCache st u = None then 1 else 0)"
  by (auto simp: getUserInfo_def queries_def split: option.splits)

lemma getUserInfo_cache:
  "userCache (snd (getUserInfo env u st)) v =
     (if u = v \<and> userCache st u = None then users_info env u else userCache st v)"
  by (auto simp: getUserInfo_def split: option.splits)

lemma formatMessage_ok:
  assumes "cache_ok env st" and "toISOString env (ts m) \<noteq> None"
  shows "fst (formatMessage env m st) = Inr (formatted env m) \<and>
         cache_ok env (snd (formatMessage env m st)) \<and>
         filter is_write (trace (snd (formatMessage env m st))) = filter is_write (trace st)"
proof (cases "truthy (user m)")
  case True
  obtain r st' where g: "getUserInfo env (the (user m)) st = (r, st')" by (cases "getUserInfo env (the (user m)) st")
  with getUserInfo_result [OF assms(1), of "the (user m)"] getUserInfo_writes [of env "the (user m)" st]
  have "r = users_info env (the (user m))" "cache_ok env st'"
    "filter is_write (trace st') = filter is_write (trace st)" by auto
  with True g assms(2) show ?thesis
    by (auto simp: formatMessage_def formatted_def Let_def)
next
  case False
  with assms show ?thesis
    by (auto simp: formatMessage_def formatted_def Let_def)
qed

lemma format_all_ok:
  "cache_ok env st \<Longrightarrow> list_all (\<lambda>m. toISOString env (ts m) \<noteq> None) ms \<Longrightarrow>
   fst (format_all env ms content st) = Inr (content @ concat (map (formatted env) ms)) \<and>
   cache_ok env (snd (format_all env ms content st)) \<and>
   filter is_write (trace (snd (format_all env ms content st))) = filter is_write (trace st)"
proof (induction ms arbitrary: content st)
  case Nil
  then show ?case by simp
next
  case (Cons m ms)
  obtain r st' where f: "formatMessage env m st = (r, st')" by (cases "formatMessage env m st")
  with formatMessage_ok [of env st m] Cons.prems
  have r: "r = Inr (formatted env m)" "cache_ok env st'"
    "filter is_write (trace st') = filter is_write (trace st)" by auto
  from Cons.IH [OF r(2), of "content @ formatted env m"] Cons.prems(2)
  show ?case by (simp add: f r)
qed

lemma saveConversation_ok:
  assumes "cache_ok env st" and "list_all (\<lambda>m. toISOString env (ts m) \<noteq> None) ms"
    and "writeFile_ok env (conversation_file conv)"
  shows "fst (saveConversation env conv ms st) = Inr () \<and>
         last (trace (snd (saveConversation env conv ms st))) =
           WriteFile (conversation_file conv)
             (conversation_header env conv (length ms) @ concat (map (formatted env) ms)) \<and>
         cache_ok env (snd (saveConversation env conv ms st))"
proof -
  obtain r st' where f: "format_all env ms (conversation_header env conv (length ms)) st = (r, st')"
    by (cases "format_all env ms (conversation_header env conv (length ms)) st")
  with format_all_ok [OF assms(1,2), of "conversation_header env conv (length ms)"]
  have "r = Inr (conversation_header env conv (length ms) @ concat (map (formatted env) ms))"
    "cache_ok env st'" by auto
  with f assms(3) show ?thesis
    by (simp add: saveConversation_def conversation_file_def Let_def cache_ok_def)
qed

text \<open>
  C6. When the history of a conversation is enumerated to its end, the list returned is
  sorted by timestamp, oldest first, whatever the order of the pages and of the messages
  in them, and it has the messages of the pages and no others; \<open>saveConversation\<close> then
  writes them to the file of the conversation in that order, after the header. (The
  timestamps are taken to be valid dates and the file to be writable; the cache holds
  only answers of the identity service, as it does from the start of a run.)
\<close>

theorem history_sorted_before_output:
  assumes "history_pages env (conversation_id conv) None pgs"
    and "cache_ok env st"
    and "list_all (\<lambda>m. toISOString env (ts m) \<noteq> None) (concat pgs)"
    and "writeFile_ok env (conversation_file conv)"
  shows "\<exists>msgs st'. getConversationHistory env (conversation_id conv) st = Some (msgs, st') \<and>
           sorted (map (\<lambda>m. parseFloat env (ts m)) msgs) \<and>
           mset msgs = mset (concat pgs) \<and>
           fst (saveConversation env conv msgs st') = Inr () \<and>
           last (trace (snd (saveConversation env conv msgs st'))) =
             WriteFile (conversation_file conv)
               (conversation_header env conv (length msgs) @ concat (map (formatted env) msgs))"
proof -
  let ?msgs = "sort_key (\<lambda>m. parseFloat env (ts m)) (concat pgs)"
  from getConversationHistory_pages [OF assms(1), of st] obtain st' where
    g: "getConversationHistory env (conversation_id conv) st = Some (?msgs, st')"
    and c: "userCache st' = userCache st"
    by blast
  from c assms(2) have ok: "cache_ok env st'" by (simp add: cache_ok_def)
  from assms(3) have d: "list_all (\<lambda>m. toISOString env (ts m) \<noteq> None) ?msgs"
    by (simp add: list_all_iff)
  from saveConversation_ok [OF ok d assms(4)] g show ?thesis
    by (intro exI [of _ ?msgs] exI [of _ st']) simp
qed

lemma cache_ok_fresh: "cache_ok env fresh"
  by (simp add: cache_ok_def fresh_def)

theorem history_sorted_before_output_witness:
  "history_pages demo_env (conversation_id demo_conv) None demo_pages \<and>
   cache_ok demo_env fresh \<and>
   list_all (\<lambda>m. toISOString demo_env (ts m) \<noteq> None) (concat demo_pages) \<and>
   writeFile_ok demo_env (conversation_file demo_conv) \<and>
   (\<exists>msgs st'. getConversationHistory demo_env (conversation_id demo_conv) fresh = Some (msgs, st') \<and>
      map ts msgs = [js ''1'', js ''2'', js ''3''] \<and>
      last (trace (snd (saveConversation demo_env demo_conv msgs st'))) =
        WriteFile (conversation_file demo_conv)
          (conversation_header demo_env demo_conv (length msgs) @
           concat (map (formatted demo_env) msgs)))"
proof -
  have h1: "history_pages demo_env (conversation_id demo_conv) None demo_pages"
    using demo_history_pages by (simp add: demo_conv_def)
  have h3: "list_all (\<lambda>m. toISOString demo_env (ts m) \<noteq> None) (concat demo_pages)"
    by (simp add: demo_pages_def demo_env_def)
  have h4: "writeFile_ok demo_env (conversation_file demo_conv)"
    by (simp add: demo_env_def)
  from history_sorted_before_output [OF h1 cache_ok_fresh h3 h4] obtain msgs st' where
    r: "getConversationHistory demo_env (conversation_id demo_conv) fresh = Some (msgs, st')"
      "last (trace (snd (saveConversation demo_env demo_conv msgs st'))) =
        WriteFile (conversation_file demo_conv)
          (conversation_header demo_env demo_conv (length msgs) @
           concat (map (formatted demo_env) msgs))"
    by blast
  from getConversationHistory_pages [OF h1, of fresh] r(1)
  have "msgs = sort_key (\<lambda>m. parseFloat demo_env (ts m)) (concat demo_pages)" by auto
  then have "map ts msgs = [js ''1'', js ''2'', js ''3'']"
    by (simp add: demo_pages_def demo_env_def msg_def js_def)
  with r have "\<exists>msgs st'. getConversationHistory demo_env (conversation_id demo_conv) fresh = Some (msgs, st') \<and>
      map ts msgs = [js ''1'', js ''2'', js ''3''] \<and>
      last (trace (snd (saveConversation demo_env demo_conv msgs st'))) =
        WriteFile (conversation_file demo_conv)
          (conversation_header demo_env demo_conv (length msgs) @
           concat (map (formatted demo_env) msgs))"
    by (intro exI [of _ msgs] exI [of _ st']) simp
  with h1 h3 h4 cache_ok_fresh [of demo_env] show ?thesis by (intro conjI)
qed

lemma lookups_spec:
  "cache_ok env st \<Longrightarrow>
   fst (lookups env us st) = map (users_info env) us \<and>
   queries v (trace (snd (lookups env us st))) =
     queries v (trace st) +
     (if userCache st v \<noteq> None then 0
      else if users_info env v = None then count_list us v
      else min 1 (count_list us v))"
proof (induction us arbitrary: st)
  case Nil
  then show ?case by simp
next
  case (Cons u us)
  obtain r st1 where g: "getUserInfo env u st = (r, st1)" by (cases "getUserInfo env u st")
  from getUserInfo_result [OF Cons.prems, of u] g
  have r: "r = users_info env u" and ok: "cache_ok env st1" by auto
  from getUserInfo_queries [of v env u st] g
  have q: "queries v (trace st1) = queries v (trace st) + (if u = v \<and> userCache st u = None then 1 else 0)"
    by simp
  from getUserInfo_cache [of env u st v] g
  have c: "userCache st1 v = (if u = v \<and> userCache st u = None then users_info env u else userCache st v)"
    by simp
  obtain rs st2 where l: "lookups env us st1 = (rs, st2)" by (cases "lookups env us st1")
  from Cons.IH [OF ok] l
  have ih: "rs = map (users_info env) us"
    "queries v (trace st2) = queries v (trace st1) +
       (if userCache st1 v \<noteq> None then 0
        else if users_info env v = None then count_list us v
        else min 1 (count_list us v))"
    by auto
  show ?case
    using Cons.prems by (auto simp: g l r ih q c cache_ok_def)
qed

text \<open>
  C3, amended. In a run that starts with an empty cache every lookup returns what the
  identity service answers. An identifier that the service resolves is queried once, at
  its first lookup, and later lookups reuse the cached result. A failed lookup is not
  cached: an identifier that the service does not resolve is queried again at every
  lookup. When the lookup fails, the formatter labels the message with the raw
  identifier and still returns the record.
\<close>

theorem identity_cache:
  "fst (lookups env us fresh) = map (users_info env) us \<and>
   queries u (trace (snd (lookups env us fresh))) =
     (if users_info env u = None then count_list us u else min 1 (count_list us u)) \<and>
   (cache_ok env st \<and> toISOString env (ts m) = Some isoStr \<and> truthy (user m) \<and>
    users_info env (the (user m)) = None \<longrightarrow>
      fst (formatMessage env m st) =
        Inr (render_message
               (take 19 (replace_first (of_char CHR ''T'') (of_char CHR '' '') isoStr))
               (the (user m)) m))"
proof (intro conjI impI)
  show "fst (lookups env us fresh) = map (users_info env) us"
    using lookups_spec [OF cache_ok_fresh, of env us] by simp
  show "queries u (trace (snd (lookups env us fresh))) =
     (if users_info env u = None then count_list us u else min 1 (count_list us u))"
    using lookups_spec [OF cache_ok_fresh, of env us u] by (simp add: fresh_def queries_def)
next
  assume a: "cache_ok env st \<and> toISOString env (ts m) = Some isoStr \<and> truthy (user m) \<and>
    users_info env (the (user m)) = None"
  then have "fst (formatMessage env m st) = Inr (formatted env m)"
    using formatMessage_ok [of env st m] by simp
  with a show "fst (formatMessage env m st) =
        Inr (render_message
               (take 19 (replace_first (of_char CHR ''T'') (of_char CHR '' '') isoStr))
               (the (user m)) m)"
    by (simp add: formatted_def display_name_def)
qed

theorem identity_cache_witness:
  "cache_ok demo_env fresh \<and>
   toISOString demo_env (ts (msg ''5'' ''U9'')) = Some (js ''1970-01-01T00:00:05.000Z'') \<and>
   truthy (user (msg ''5'' ''U9'')) \<and>
   users_info demo_env (the (user (msg ''5'' ''U9''))) = None \<and>
   queries (js ''U1'') (trace (snd (lookups demo_env [js ''U1'', js ''U9'', js ''U1''] fresh))) = 1 \<and>
   fst (formatMessage demo_env (msg ''5'' ''U9'') fresh) =
     Inr (render_message (js ''1970-01-01 00:00:05'') (js ''U9'') (msg ''5'' ''U9''))"
proof -
  have h: "cache_ok demo_env fresh \<and>
    toISOString demo_env (ts (msg ''5'' ''U9'')) = Some (js ''1970-01-01T00:00:05.000Z'') \<and>
    truthy (user (msg ''5'' ''U9'')) \<and> users_info demo_env (the (user (msg ''5'' ''U9''))) = None"
    by (simp add: cache_ok_fresh demo_env_def msg_def js_def truthy_def)
  have d: "take 19 (replace_first (of_char CHR ''T'') (of_char CHR '' '') (js ''1970-01-01T00:00:05.000Z''))
             = js ''1970-01-01 00:00:05''"
    by (simp add: js_def)
  have u: "the (user (msg ''5'' ''U9'')) = js ''U9''" by (simp add: msg_def)
  have k: "users_info demo_env (js ''U1'') \<noteq> None" by (simp add: demo_env_def)
  from identity_cache [of demo_env "[js ''U1'', js ''U9'', js ''U1'']" "js ''U1''" fresh
      "msg ''5'' ''U9''" "js ''1970-01-01T00:00:05.000Z''"] h k
  show ?thesis by (simp add: d u js_def)
qed

text \<open>
  C3, as stated, fails: the identifier \<open>U9\<close>, which the identity service does not
  resolve, is looked up twice and the service is queried twice.
\<close>

theorem identity_cache_counterexample:
  "queries (js ''U9'') (trace (snd (lookups demo_env [js ''U9'', js ''U9''] fresh))) = 2"
  using lookups_spec [OF cache_ok_fresh, of demo_env "[js ''U9'', js ''U9'']" "js ''U9''"]
  by (simp add: fresh_def queries_def demo_env_def js_def)

section \<open>Properties of \<open>getMessages\<close>\<close>

lemma list_requests_append [simp]: "list_requests (xs @ ys) = list_requests xs + list_requests ys"
  by (simp add: list_requests_def)

lemma list_requests_simps [simp]:
  "list_requests [] = 0"
  "list_requests (MessagesList q tok n # tr) = Suc (list_requests tr)"
  "list_requests (GmailDelay ms # tr) = list_requests tr"
  by (simp_all add: list_requests_def)



lemma messages_loop_fails:
  "messages_fail_after list_api q mx tok fetched pgs \<Longrightarrow>
   \<exists>tr'. getMessages_loop list_api q mx tok msgs fetched tr = Some (Inl RequestFailed, tr')"
proof (induction pgs arbitrary: tok fetched msgs tr)
  case Nil
  then show ?case by (subst getMessages_loop.simps) simp
next
  case (Cons pg pgs)
  from Cons.prems obtain nextPageToken where
    f: "list_api q tok (requested mx fetched) = Some (pg, nextPageToken)" and
    n: "\<not> (limited mx \<and> fetched_after fetched pg \<ge> the mx)" and
    t: "truthy nextPageToken" and
    p: "messages_fail_after list_api q mx nextPageToken (fetched_after fetched pg) pgs"
    by (auto split: option.splits)
  have "getMessages_loop list_api q mx tok msgs fetched tr =
          getMessages_loop list_api q mx nextPageToken (msgs @ page_items pg)
            (fetched_after fetched pg)
            (tr @ [MessagesList q tok (requested mx fetched), GmailDelay 100])"
    using n by (subst getMessages_loop.simps) (auto simp: f t)
  with Cons.IH [OF p] show ?case by simp
qed





section \<open>A failed page fetch\<close>

lemma getConversationHistory_fails:
  assumes "history_fails_after env ch None pgs"
  shows "\<exists>st'. getConversationHistory env ch st = Some ([], st') \<and>
           userCache st' = userCache st \<and>
           filter is_write (trace st') = filter is_write (trace st)"
proof -
  from history_loop_fails [OF assms, of "[]" st] obtain st' where
    "getConversationHistory_loop env ch None [] st = Some (Inl RequestFailed, st')"
    "userCache st' = userCache st"
    "filter is_write (trace st') = filter is_write (trace st)"
    by blast
  then show ?thesis
    by (intro exI [of _ st']) (simp add: getConversationHistory_def)
qed

lemma archive_loop_skips_failed:
  assumes "history_fails_after env (conversation_id conv) None pgs"
  shows "\<exists>st'. archive_loop env (conv # rest) cnt st = archive_loop env rest cnt st' \<and>
           userCache st' = userCache st \<and>
           filter is_write (trace st') = filter is_write (trace st)"
proof -
  from getConversationHistory_fails [OF assms, of st] obtain st' where
    "getConversationHistory env (conversation_id conv) st = Some ([], st')"
    "userCache st' = userCache st"
    "filter is_write (trace st') = filter is_write (trace st)"
    by blast
  then show ?thesis
    by (intro exI [of _ st']) simp
qed

lemma getMessages_fails:
  assumes "messages_fail_after list_api q mx None 0 pgs"
  shows "\<exists>tr'. getMessages list_api q mx tr = Some ([], tr')"
proof -
  from messages_loop_fails [OF assms, of "[]" tr] obtain tr' where
    "getMessages_loop list_api q mx None [] 0 tr = Some (Inl RequestFailed, tr')" by blast
  then show ?thesis by (simp add: getMessages_def)
qed

text \<open>
  C1, amended. When a page fetch fails, after any number of pages fetched, the
  enumeration of that collection is aborted and the caller receives the empty list: the
  items of the earlier pages are dropped with the failed fetch, in
  \<open>getConversationHistory\<close> and in \<open>getMessages\<close> alike. The run continues: \<open>archive\<close>
  writes no file for that conversation, leaves the cache as it was and goes on with the
  next conversation.
\<close>

theorem fetch_failure_returns_empty:
  "(history_fails_after env ch None pgs \<longrightarrow>
      (\<exists>st'. getConversationHistory env ch st = Some ([], st'))) \<and>
   (messages_fail_after list_api q mx None 0 gpgs \<longrightarrow>
      (\<exists>tr'. getMessages list_api q mx tr = Some ([], tr'))) \<and>
   (history_fails_after env (conversation_id conv) None cpgs \<longrightarrow>
      (\<exists>st'. archive_loop env (conv # rest) cnt st = archive_loop env rest cnt st' \<and>
         userCache st' = userCache st \<and>
         filter is_write (trace st') = filter is_write (trace st)))"
  using getConversationHistory_fails [of env ch pgs st] getMessages_fails [of list_api q mx gpgs tr]
    archive_loop_skips_failed [of env conv cpgs rest cnt st]
  by blast

lemma demo_history_fails:
  "history_fails_after demo_env (js ''C2'') None [[msg ''5'' ''U9'']]"
  by (simp add: demo_env_def js_def truthy_def)

lemma flaky_mailbox_fails:
  "messages_fail_after (flaky_mailbox [0 ..< 1000]) [] None None 0 [Some [0 ..< 500]]"
  by (simp add: flaky_mailbox_def mailbox_def requested_def limited_def fetched_after_def truthy_def)

theorem fetch_failure_returns_empty_witness:
  "history_fails_after demo_env (js ''C2'') None [[msg ''5'' ''U9'']] \<and>
   messages_fail_after (flaky_mailbox [0 ..< 1000]) [] None None 0 [Some [0 ..< 500]] \<and>
   history_fails_after demo_env (conversation_id demo_conv2) None [[msg ''5'' ''U9'']] \<and>
   (\<exists>st'. getConversationHistory demo_env (js ''C2'') fresh = Some ([], st')) \<and>
   (\<exists>tr'. getMessages (flaky_mailbox [0 ..< 1000]) [] None [] = Some ([], tr')) \<and>
   (\<exists>st'. archive_loop demo_env [demo_conv2, demo_conv] \<lparr>successCount = 0, errorCount = 0\<rparr> fresh =
           archive_loop demo_env [demo_conv] \<lparr>successCount = 0, errorCount = 0\<rparr> st' \<and>
           userCache st' = userCache fresh \<and>
           filter is_write (trace st') = filter is_write (trace fresh))"
proof -
  have h3: "history_fails_after demo_env (conversation_id demo_conv2) None [[msg ''5'' ''U9'']]"
    using demo_history_fails by (simp add: demo_conv2_def)
  from fetch_failure_returns_empty [of demo_env "js ''C2''" "[[msg ''5'' ''U9'']]" fresh
      "flaky_mailbox [0 ..< 1000]" "[]" None "[Some [0 ..< 500]]" "[]"
      demo_conv2 "[[msg ''5'' ''U9'']]" "[demo_conv]" "\<lparr>successCount = 0, errorCount = 0\<rparr>"]
    demo_history_fails flaky_mailbox_fails h3
  show ?thesis by blast
qed

text \<open>
  C1, as stated, fails: the channel \<open>C2\<close> answers one page with one message, the fetch of
  the next page fails, and \<open>getConversationHistory\<close> returns the empty list, not the
  message of the first page.
\<close>

theorem fetch_failure_counterexample:
  "history_fails_after demo_env (js ''C2'') None [[msg ''5'' ''U9'']] \<and>
   map_option fst (getConversationHistory demo_env (js ''C2'') fresh) = Some [] \<and>
   map_option fst (getConversationHistory demo_env (js ''C2'') fresh) \<noteq> Some [msg ''5'' ''U9'']"
proof -
  from getConversationHistory_fails [OF demo_history_fails, of fresh] obtain st' where
    "getConversationHistory demo_env (js ''C2'') fresh = Some ([], st')" by blast
  with demo_history_fails show ?thesis by simp
qed

section \<open>Properties of the content extractor\<close>

lemma extractBody_parts:
  "parts payload = Some ps \<Longrightarrow>
   extractBody base64 includeMarkup payload =
     (let raw = (if has_data (body payload) then decodeBase64 base64 (body_data (body payload)) else []) @
                concat (map (part_text base64 includeMarkup) ps)
      in if includeMarkup then raw else cleanText (Some raw))"
  by (cases payload) (simp add: part_text_def Let_def cong: map_cong)

lemma attachments_total:
  shows "bodies_present p \<Longrightarrow> \<exists>atts. extractAttachments p = Inr atts"
    and "\<forall>p\<in>set plist. (truthy (filename p) \<longrightarrow> body p \<noteq> None) \<and> bodies_present p \<Longrightarrow>
         \<exists>atts. extractAttachments_parts plist = Inr atts"
proof (induction p and plist rule: extractAttachments_extractAttachments_parts.induct)
  case (1 ty fname b ps)
  then show ?case by (cases ps) auto
next
  case 2
  then show ?case by simp
next
  case (3 p rest)
  note a = "3.prems"
  then have "\<exists>own. (if truthy (filename p)
            then (case body p of
                    None \<Rightarrow> Inl TypeError
                  | Some bd \<Rightarrow> Inr [\<lparr>att_filename = the (filename p), att_mimeType = mimeType p,
                                     att_size = size' bd\<rparr>])
            else Inr []) = Inr own"
    by (auto split: option.splits)
  then obtain own where own: "(if truthy (filename p)
            then (case body p of
                    None \<Rightarrow> Inl TypeError
                  | Some bd \<Rightarrow> Inr [\<lparr>att_filename = the (filename p), att_mimeType = mimeType p,
                                     att_size = size' bd\<rparr>])
            else Inr []) = Inr own" by blast
  from a have bp: "bodies_present p" by simp
  have "\<exists>nested. (if parts p \<noteq> None then extractAttachments p else Inr []) = Inr nested"
  proof (cases "parts p \<noteq> None")
    case True
    with "3.IH"(1) [OF own True] bp show ?thesis by simp
  next
    case False
    then show ?thesis by simp
  qed
  then obtain nested where nested:
    "(if parts p \<noteq> None then extractAttachments p else Inr []) = Inr nested" by blast
  from "3.IH"(2) [OF own nested] a obtain others where
    "extractAttachments_parts rest = Inr others" by auto
  with own nested show ?case
    by simp
qed

lemma attachments_own:
  "extractAttachments_parts plist = Inr atts \<Longrightarrow> p \<in> set plist \<Longrightarrow> truthy (filename p) \<Longrightarrow>
   the (filename p) \<in> att_filename ` set atts"
proof (induction plist arbitrary: atts)
  case Nil
  then show ?case by simp
next
  case (Cons x rest)
  from Cons.prems(1) obtain own nested others where
    s: "(if truthy (filename x)
            then (case body x of
                    None \<Rightarrow> Inl TypeError
                  | Some bd \<Rightarrow> Inr [\<lparr>att_filename = the (filename x), att_mimeType = mimeType x,
                                     att_size = size' bd\<rparr>])
            else Inr []) = Inr own"
      "extractAttachments_parts rest = Inr others" "atts = own @ nested @ others"
    by (auto split: sum.splits)
  show ?case
  proof (cases "p = x")
    case True
    with s(1) Cons.prems(3) have "the (filename p) \<in> att_filename ` set own"
      by (auto split: option.splits)
    with s(3) show ?thesis by auto
  next
    case False
    with Cons.prems(2) have "p \<in> set rest" by simp
    from Cons.IH [OF s(2) this Cons.prems(3)] s(3) show ?thesis by auto
  qed
qed

lemma attachments_nested:
  "extractAttachments_parts plist = Inr atts \<Longrightarrow> p \<in> set plist \<Longrightarrow> parts p = Some qs \<Longrightarrow>
   \<exists>natts. extractAttachments_parts qs = Inr natts \<and> set natts \<subseteq> set atts"
proof (induction plist arbitrary: atts)
  case Nil
  then show ?case by simp
next
  case (Cons x rest)
  from Cons.prems(1) obtain own nested others where
    s: "(if parts x \<noteq> None then extractAttachments x else Inr []) = Inr nested"
      "extractAttachments_parts rest = Inr others" "atts = own @ nested @ others"
    by (auto split: sum.splits)
  show ?case
  proof (cases "p = x")
    case True
    with s(1) Cons.prems(3) have "extractAttachments_parts qs = Inr nested"
      by (cases x) auto
    with s(3) show ?thesis by auto
  next
    case False
    with Cons.prems(2) have "p \<in> set rest" by simp
    from Cons.IH [OF s(2) this Cons.prems(3)] s(3) show ?thesis by auto
  qed
qed

text \<open>
  C8, amended. Take a part whose \<open>parts\<close> hold a plain-text part with data, which in
  turn holds a part with a file name. The body extracted from the top part is the text of
  the top part's own data followed by what its parts add, in the order of the array, and
  the plain-text part adds exactly its decoded text. With \<open>includeMarkup\<close> that
  concatenation is the body, so the body contains the decoded text; without it, which is
  the default, the body is \<open>cleanText\<close> of the concatenation. The attachments list has the
  file name of the innermost part.
\<close>

theorem nested_extraction:
  assumes "parts payload = Some ps" and "sub \<in> set ps"
    and "mimeType sub = Some (js ''text/plain'')" and "has_data (body sub)"
    and "parts sub = Some qs" and "subsub \<in> set qs" and "truthy (filename subsub)"
    and "bodies_present payload"
  shows "part_text base64 includeMarkup sub = decodeBase64 base64 (body_data (body sub)) \<and>
         extractBody base64 includeMarkup payload =
           (let raw = (if has_data (body payload)
                       then decodeBase64 base64 (body_data (body payload)) else []) @
                      concat (map (part_text base64 includeMarkup) ps)
            in if includeMarkup then raw else cleanText (Some raw)) \<and>
         (includeMarkup \<longrightarrow>
            sublist (decodeBase64 base64 (body_data (body sub)))
                    (extractBody base64 includeMarkup payload)) \<and>
         (\<exists>atts. extractAttachments payload = Inr atts \<and>
            the (filename subsub) \<in> att_filename ` set atts)"
proof (intro conjI impI)
  show t: "part_text base64 includeMarkup sub = decodeBase64 base64 (body_data (body sub))"
    using assms(3,4) by (simp add: part_text_def)
  show b: "extractBody base64 includeMarkup payload =
           (let raw = (if has_data (body payload)
                       then decodeBase64 base64 (body_data (body payload)) else []) @
                      concat (map (part_text base64 includeMarkup) ps)
            in if includeMarkup then raw else cleanText (Some raw))"
    by (rule extractBody_parts [OF assms(1)])
  show "sublist (decodeBase64 base64 (body_data (body sub)))
          (extractBody base64 includeMarkup payload)" if "includeMarkup"
  proof -
    from assms(2) obtain xs ys where "ps = xs @ sub # ys" by (auto simp: in_set_conv_decomp)
    then have "extractBody base64 includeMarkup payload =
        ((if has_data (body payload) then decodeBase64 base64 (body_data (body payload)) else []) @
         concat (map (part_text base64 includeMarkup) xs)) @
        decodeBase64 base64 (body_data (body sub)) @
        concat (map (part_text base64 includeMarkup) ys)"
      using that b t by (simp add: Let_def)
    then show ?thesis unfolding sublist_def by blast
  qed
  show "\<exists>atts. extractAttachments payload = Inr atts \<and>
            the (filename subsub) \<in> att_filename ` set atts"
  proof -
    from attachments_total(1) [OF assms(8)] obtain atts where
      a: "extractAttachments payload = Inr atts" by auto
    with assms(1) have ap: "extractAttachments_parts ps = Inr atts" by (cases payload) auto
    from attachments_nested [OF ap assms(2) assms(5)] obtain natts where
      n: "extractAttachments_parts qs = Inr natts" "set natts \<subseteq> set atts" by blast
    from attachments_own [OF n(1) assms(6,7)] n(2) a show ?thesis by auto
  qed
qed

lemma demo_payload_shape:
  "parts demo_payload = Some [demo_sub] \<and> demo_sub \<in> set [demo_sub] \<and>
   mimeType demo_sub = Some (js ''text/plain'') \<and> has_data (body demo_sub) \<and>
   parts demo_sub = Some [demo_subsub] \<and> demo_subsub \<in> set [demo_subsub] \<and>
   truthy (filename demo_subsub) \<and> bodies_present demo_payload"
  by (simp add: demo_payload_def demo_sub_def demo_subsub_def has_data_def truthy_def js_def)

lemma demo_decoded: "decodeBase64 demo_base64 (body_data (body demo_sub)) = js ''<b>hi</b>''"
  by (simp add: demo_sub_def decodeBase64_def body_data_def truthy_def demo_base64_def js_def)

theorem nested_extraction_witness:
  "parts demo_payload = Some [demo_sub] \<and> demo_sub \<in> set [demo_sub] \<and>
   mimeType demo_sub = Some (js ''text/plain'') \<and> has_data (body demo_sub) \<and>
   parts demo_sub = Some [demo_subsub] \<and> demo_subsub \<in> set [demo_subsub] \<and>
   truthy (filename demo_subsub) \<and> bodies_present demo_payload \<and>
   sublist (js ''<b>hi</b>'') (extractBody demo_base64 True demo_payload) \<and>
   (\<exists>atts. extractAttachments demo_payload = Inr atts \<and> js ''a.pdf'' \<in> att_filename ` set atts)"
proof -
  note h = demo_payload_shape
  have f: "the (filename demo_subsub) = js ''a.pdf''" by (simp add: demo_subsub_def)
  from nested_extraction [of demo_payload "[demo_sub]" demo_sub "[demo_subsub]" demo_subsub
      demo_base64 True] h
  have "sublist (decodeBase64 demo_base64 (body_data (body demo_sub)))
          (extractBody demo_base64 True demo_payload) \<and>
        (\<exists>atts. extractAttachments demo_payload = Inr atts \<and>
           the (filename demo_subsub) \<in> att_filename ` set atts)"
    by blast
  then show ?thesis
    unfolding demo_decoded f using h by blast
qed

text \<open>
  C8, as stated, fails in the default mode: the plain-text part decodes to
  \<open><b>hi</b>\<close>, the body extracted is \<open>hi\<close>, which does not contain the decoded text.
\<close>

theorem nested_extraction_counterexample:
  "parts demo_payload = Some [demo_sub] \<and> mimeType demo_sub = Some (js ''text/plain'') \<and>
   has_data (body demo_sub) \<and>
   decodeBase64 demo_base64 (body_data (body demo_sub)) = js ''<b>hi</b>'' \<and>
   extractBody demo_base64 False demo_payload = js ''hi'' \<and>
   \<not> sublist (decodeBase64 demo_base64 (body_data (body demo_sub)))
       (extractBody demo_base64 False demo_payload)"
proof -
  have c: "cleanText (Some (js ''<b>hi</b>'')) = js ''hi''"
    by (simp add: cleanText_eval)
  have "extractBody demo_base64 False demo_payload =
          cleanText (Some (decodeBase64 demo_base64 (body_data (body demo_sub))))"
    using demo_payload_shape
    by (simp add: extractBody_parts part_text_def has_data_def demo_payload_def Let_def)
  then have b: "extractBody demo_base64 False demo_payload = js ''hi''"
    by (simp add: demo_decoded c)
  have "\<not> sublist (js ''<b>hi</b>'') (js ''hi'')"
    by (auto dest!: sublist_length_le simp: js_def)
  with b demo_payload_shape demo_decoded show ?thesis by simp
qed

section \<open>Properties of the calendar archiver\<close>



























lemma demo_monthKeys:
  "monthKey demo_cal (day_event ''2024-01-10'' t) = js ''2024-01''"
  "monthKey demo_cal (day_event ''2024-01-20'' t) = js ''2024-01''"
  "monthKey demo_cal (day_event ''2024-02-05'' t) = js ''2024-02''"
  by (simp_all add: monthKey_def demo_cal_def day_event_def start_string_def or_else_def truthy_def
      show_int_def show_nat.simps padStart2_def js_def)

lemma demo_month_sections:
  "month_sections demo_cal
     [day_event ''2024-02-05'' ''C'', day_event ''2024-01-10'' ''A'', day_event ''2024-01-20'' ''B''] =
   [(js ''2024-01'', [day_event ''2024-01-10'' ''A'', day_event ''2024-01-20'' ''B'']),
    (js ''2024-02'', [day_event ''2024-02-05'' ''C''])]"
proof -
  have "sort [js ''2024-02'', js ''2024-01''] = [js ''2024-01'', js ''2024-02'']"
    by (simp add: js_def)
  moreover have "js ''2024-01'' \<noteq> js ''2024-02''" by (simp add: js_def)
  ultimately show ?thesis
    by (simp add: month_sections_def sortedMonths_def eventsByMonth_def demo_monthKeys)
qed



end
